theory Spec2Isabelle
  imports Main "HOL-Library.Word"
begin

section \<open>Data model\<close>

text \<open>
  The fields of \<^verbatim>\<open>v1.VirtualMachineInstanceSpec\<close> that
  \<^verbatim>\<open>pkg/network/admitter/netiface.go\<close> reads: the network list and, under
  \<^verbatim>\<open>Domain.Devices\<close>, the interface list. A Go \<^verbatim>\<open>string\<close> is a sequence of
  bytes, here a \<^typ>\<open>string\<close> (a list of 8-bit characters). The checks receive a
  \<^verbatim>\<open>*v1.VirtualMachineInstanceSpec\<close>; the functions below take the spec it points to.
\<close>

record Network =
  Name :: string

record Interface =
  Name :: string
  Model :: string
  MacAddress :: string
  PciAddress :: string

record Devices =
  Interfaces :: "Interface list"

record DomainSpec =
  Devices :: Devices

record VirtualMachineInstanceSpec =
  Domain :: DomainSpec
  Networks :: "Network list"

text \<open>\<^verbatim>\<open>metav1.StatusCause\<close> and the four cause types the file uses.\<close>

datatype CauseType =
  CauseTypeFieldValueRequired
  | CauseTypeFieldValueInvalid
  | CauseTypeFieldValueDuplicate
  | CauseTypeFieldValueNotSupported

record StatusCause =
  Type :: CauseType
  Message :: string
  Field :: string

section \<open>Field paths\<close>

text \<open>
  \<^verbatim>\<open>k8sfield.Path\<close> is a linked list of nodes \<^verbatim>\<open>{name, index, parent}\<close>; the
  checks receive a \<^verbatim>\<open>*Path\<close>, which may be \<^verbatim>\<open>nil\<close>. A node with an empty
  name is a subscript.
\<close>

datatype Path = NilPath | Path (name: string) (index: string) (parent: Path)

text \<open>\<^verbatim>\<open>strconv.Itoa\<close>: the decimal digits of an \<^verbatim>\<open>int\<close>.\<close>

function uitoa :: "nat \<Rightarrow> string" where
  "uitoa n = (if n < 10 then [char_of (48 + n)] else uitoa (n div 10) @ [char_of (48 + n mod 10)])"
  by pat_completeness auto
termination
  by (relation "measure (\<lambda>n. n)") auto

declare uitoa.simps [simp del]

definition Itoa :: "int \<Rightarrow> string" where
  "Itoa i = (if i < 0 then CHR ''-'' # uitoa (nat (- i)) else uitoa (nat i))"

text \<open>
  \<^verbatim>\<open>NewPath(name, moreNames...)\<close> builds a chain whose root has no parent;
  \<^verbatim>\<open>p.Child(name, moreNames...)\<close> builds that chain and then sets the parent of
  its root to \<^verbatim>\<open>p\<close> (\<^verbatim>\<open>r.Root().parent = p\<close>): the only write is to the
  freshly allocated root node.
\<close>

definition NewPath :: "string \<Rightarrow> string list \<Rightarrow> Path" where
  "NewPath nm moreNames = foldl (\<lambda>r anotherName. Path anotherName [] r) (Path nm [] NilPath) moreNames"

fun setRootParent :: "Path \<Rightarrow> Path \<Rightarrow> Path" where
  "setRootParent NilPath p = NilPath"
| "setRootParent (Path nm ix NilPath) p = Path nm ix p"
| "setRootParent (Path nm ix par) p = Path nm ix (setRootParent par p)"

definition Child :: "Path \<Rightarrow> string \<Rightarrow> string list \<Rightarrow> Path" where
  "Child p nm moreNames = setRootParent (NewPath nm moreNames) p"

definition Index :: "Path \<Rightarrow> int \<Rightarrow> Path" where
  "Index p i = Path [] (Itoa i) p"

text \<open>
  \<^verbatim>\<open>p.String()\<close>: \<^verbatim>\<open><nil>\<close> for the nil path; otherwise the nodes from the root
  down, a named node preceded by a dot unless it is the root, a subscript node in
  brackets.
\<close>

fun elems :: "Path \<Rightarrow> Path list" where
  "elems NilPath = []"
| "elems (Path nm ix par) = Path nm ix par # elems par"

definition writeElem :: "Path \<Rightarrow> string" where
  "writeElem p =
     (if parent p \<noteq> NilPath \<and> name p \<noteq> [] then ''.'' else [])
     @ (if name p \<noteq> [] then name p else ''['' @ index p @ '']'')"

definition String :: "Path \<Rightarrow> string" where
  "String p = (if p = NilPath then ''<nil>'' else concat (map writeElem (rev (elems p))))"

section \<open>Field paths as heap objects\<close>

text \<open>
  The checks build every path with \<^verbatim>\<open>Child\<close> and \<^verbatim>\<open>Index\<close>. In Go these allocate
  nodes, and \<^verbatim>\<open>Child\<close> assigns to a field of a node (\<^verbatim>\<open>r.Root().parent = p\<close>). To
  see which node is written, the operations are modelled a second time on a heap: the
  list of the nodes allocated so far, an address being an index into it, a
  \<^verbatim>\<open>*Path\<close> being \<open>None\<close> (nil) or \<open>Some\<close> address. \<^verbatim>\<open>Root\<close> is the loop
  \<^verbatim>\<open>for ; p.parent != nil; p = p.parent {}\<close>, which need not end on an arbitrary heap:
  \<open>None\<close> is a loop that does not return (or an address outside the heap).
\<close>

record PathNode =
  nodeName :: string
  nodeIndex :: string
  nodeParent :: "nat option"

type_synonym heap = "PathNode list"

definition new :: "heap \<Rightarrow> PathNode \<Rightarrow> heap \<times> nat" where
  "new h nd = (h @ [nd], length h)"

fun NewPath_loop :: "heap \<Rightarrow> nat \<Rightarrow> string list \<Rightarrow> heap \<times> nat" where
  "NewPath_loop h r [] = (h, r)"
| "NewPath_loop h r (anotherName # rest) =
     (case new h \<lparr>nodeName = anotherName, nodeIndex = [], nodeParent = Some r\<rparr> of
        (h', r') \<Rightarrow> NewPath_loop h' r' rest)"

definition NewPath_h :: "heap \<Rightarrow> string \<Rightarrow> string list \<Rightarrow> heap \<times> nat" where
  "NewPath_h h nm moreNames =
     (case new h \<lparr>nodeName = nm, nodeIndex = [], nodeParent = None\<rparr> of
        (h', r) \<Rightarrow> NewPath_loop h' r moreNames)"

partial_function (option) Root_h :: "heap \<Rightarrow> nat \<Rightarrow> nat option" where
  "Root_h h p =
     (if p < length h
      then (case nodeParent (h ! p) of None \<Rightarrow> Some p | Some q \<Rightarrow> Root_h h q)
      else None)"

declare Root_h.simps [code]

definition Child_h :: "heap \<Rightarrow> nat option \<Rightarrow> string \<Rightarrow> string list \<Rightarrow> (heap \<times> nat) option" where
  "Child_h h p nm moreNames =
     (case NewPath_h h nm moreNames of
        (h', r) \<Rightarrow>
          (case Root_h h' r of
             None \<Rightarrow> None
           | Some root \<Rightarrow> Some (h'[root := (h' ! root)\<lparr>nodeParent := p\<rparr>], r)))"

definition Index_h :: "heap \<Rightarrow> nat option \<Rightarrow> int \<Rightarrow> heap \<times> nat" where
  "Index_h h p i = new h \<lparr>nodeName = [], nodeIndex = Itoa i, nodeParent = p\<rparr>"

text \<open>The pointer \<open>p\<close> denotes the path value \<open>P\<close> in the heap \<open>h\<close>.\<close>

inductive pathAt :: "heap \<Rightarrow> nat option \<Rightarrow> Path \<Rightarrow> bool" where
  nil: "pathAt h None NilPath"
| node: "a < length h \<Longrightarrow> pathAt h (nodeParent (h ! a)) par \<Longrightarrow>
         pathAt h (Some a) (Path (nodeName (h ! a)) (nodeIndex (h ! a)) par)"

text \<open>The nodes \<^verbatim>\<open>NewPath\<close> allocates after its root, at the addresses following
  \<open>r\<close>: each points to the node allocated before it.\<close>

definition chainNode :: "nat \<Rightarrow> nat \<times> string \<Rightarrow> PathNode" where
  "chainNode r = (\<lambda>(k, m). \<lparr>nodeName = m, nodeIndex = [], nodeParent = Some (r + k)\<rparr>)"

section \<open>Cross-reference checks\<close>

text \<open>
  Modelled from the spec: \<^verbatim>\<open>vmispec.IndexInterfaceSpecByName\<close> is not among the
  source files. The spec (4.1) has the check "build a lookup set of interface names and
  a lookup set of network names (each a set keyed by declared name; last-write is
  irrelevant since only presence matters)": a Go map from the declared name to the
  declaration, filled in list order.
\<close>

definition IndexInterfaceSpecByName :: "Interface list \<Rightarrow> (string \<rightharpoonup> Interface)" where
  "IndexInterfaceSpecByName interfaces =
     foldl (\<lambda>ifacesByName ifaceSpec. ifacesByName(Interface.Name ifaceSpec \<mapsto> ifaceSpec)) Map.empty interfaces"

text \<open>
  Modelled from the spec: \<^verbatim>\<open>vmispec.IndexNetworkSpecByName\<close> is not among the source
  files either; it is the lookup set of network names of the same sentence.
\<close>

definition IndexNetworkSpecByName :: "Network list \<Rightarrow> (string \<rightharpoonup> Network)" where
  "IndexNetworkSpecByName networks =
     foldl (\<lambda>indexedNetworks network. indexedNetworks(Network.Name network \<mapsto> network)) Map.empty networks"

text \<open>
  The loop \<^verbatim>\<open>for i, network := range spec.Networks\<close> of
  \<^verbatim>\<open>validateNetworksAssignedToInterfaces\<close>, with the slice \<^verbatim>\<open>causes\<close> as an
  accumulator. \<^verbatim>\<open>fmt.Sprintf("%s '%s' not found.", a, b)\<close> is written out as the
  concatenation it computes. The index is an \<^typ>\<open>int\<close>: a Go slice is shorter than
  the range of \<^verbatim>\<open>int\<close>, so \<^verbatim>\<open>i + 1\<close> never wraps.
\<close>

definition networkNamePath :: "Path \<Rightarrow> int \<Rightarrow> string" where
  "networkNamePath field i = String (Child (Index (Child field ''networks'' []) i) ''name'' [])"

definition interfaceFieldPath :: "Path \<Rightarrow> int \<Rightarrow> string \<Rightarrow> string" where
  "interfaceFieldPath field idx leaf =
     String (Child (Index (Child field ''domain'' [''devices'', ''interfaces'']) idx) leaf [])"

fun validateNetworksAssignedToInterfaces_loop ::
  "Path \<Rightarrow> (string \<rightharpoonup> Interface) \<Rightarrow> int \<Rightarrow> Network list \<Rightarrow> StatusCause list \<Rightarrow> StatusCause list" where
  "validateNetworksAssignedToInterfaces_loop field interfaceSet i [] causes = causes"
| "validateNetworksAssignedToInterfaces_loop field interfaceSet i (network # rest) causes =
     validateNetworksAssignedToInterfaces_loop field interfaceSet (i + 1) rest
       (if interfaceSet (Network.Name network) = None
        then causes @ [\<lparr>Type = CauseTypeFieldValueRequired,
                         Message = networkNamePath field i @ '' '' @ [CHR 0x27]
                                   @ Network.Name network @ ''' not found.'',
                         Field = networkNamePath field i\<rparr>]
        else causes)"

definition validateNetworksAssignedToInterfaces ::
  "Path \<Rightarrow> VirtualMachineInstanceSpec \<Rightarrow> StatusCause list" where
  "validateNetworksAssignedToInterfaces field spec =
     (let interfaceSet = IndexInterfaceSpecByName (Interfaces (Devices (VirtualMachineInstanceSpec.Domain spec)))
      in validateNetworksAssignedToInterfaces_loop field interfaceSet 0 (Networks spec) [])"

fun validateInterfacesAssignedToNetworks_loop ::
  "Path \<Rightarrow> (string \<rightharpoonup> Network) \<Rightarrow> int \<Rightarrow> Interface list \<Rightarrow> StatusCause list \<Rightarrow> StatusCause list" where
  "validateInterfacesAssignedToNetworks_loop field networkSet idx [] causes = causes"
| "validateInterfacesAssignedToNetworks_loop field networkSet idx (iface # rest) causes =
     validateInterfacesAssignedToNetworks_loop field networkSet (idx + 1) rest
       (if networkSet (Interface.Name iface) = None
        then causes @ [\<lparr>Type = CauseTypeFieldValueInvalid,
                         Message = interfaceFieldPath field idx ''name'' @ '' '' @ [CHR 0x27]
                                   @ Interface.Name iface @ ''' not found.'',
                         Field = interfaceFieldPath field idx ''name''\<rparr>]
        else causes)"

definition validateInterfacesAssignedToNetworks ::
  "Path \<Rightarrow> VirtualMachineInstanceSpec \<Rightarrow> StatusCause list" where
  "validateInterfacesAssignedToNetworks field spec =
     (let networkSet = IndexNetworkSpecByName (Networks spec)
      in validateInterfacesAssignedToNetworks_loop field networkSet 0
           (Interfaces (Devices (VirtualMachineInstanceSpec.Domain spec))) [])"

section \<open>Uniqueness checks\<close>

text \<open>
  \<^verbatim>\<open>validateNetworkNameUnique\<close> formats the name with the verb \<^verbatim>\<open>%q\<close>, which
  is \<^verbatim>\<open>strconv.Quote\<close>: a double-quoted Go string literal. The functions below follow
  the Go standard library (\<^verbatim>\<open>unicode/utf8\<close> and \<^verbatim>\<open>strconv\<close>); runes are natural
  numbers. The bit operations of the original on disjoint bit fields are written with
  \<open>div\<close>, \<open>mod\<close> and \<open>+\<close>.
\<close>

definition RuneError :: nat where
  "RuneError = 0xFFFD"

text \<open>The table \<^verbatim>\<open>first\<close>: \<open>0xF0\<close> is ASCII, \<open>0xF1\<close> is invalid; otherwise the
  low three bits are the size and the high four bits index \<^verbatim>\<open>acceptRanges\<close>.\<close>

definition first :: "nat \<Rightarrow> nat" where
  "first b =
     (if b < 0x80 then 0xF0
      else if b < 0xC2 then 0xF1
      else if b < 0xE0 then 0x02
      else if b = 0xE0 then 0x13
      else if b < 0xED then 0x03
      else if b = 0xED then 0x23
      else if b < 0xF0 then 0x03
      else if b = 0xF0 then 0x34
      else if b < 0xF4 then 0x04
      else if b = 0xF4 then 0x44
      else 0xF1)"

definition acceptRanges :: "nat \<Rightarrow> nat \<times> nat" where
  "acceptRanges k =
     (if k = 0 then (0x80, 0xBF)
      else if k = 1 then (0xA0, 0xBF)
      else if k = 2 then (0x80, 0x9F)
      else if k = 3 then (0x90, 0xBF)
      else (0x80, 0x8F))"

definition DecodeRuneInString :: "string \<Rightarrow> nat \<times> nat" where
  "DecodeRuneInString s =
     (let n = length s in
      if n < 1 then (RuneError, 0)
      else
        let s0 = of_char (s ! 0); x = first s0 in
        if x \<ge> 0xF0 then ((if x = 0xF0 then s0 else RuneError), 1)
        else
          let sz = x mod 8; accept = acceptRanges (x div 16) in
          if n < sz then (RuneError, 1)
          else
            let s1 = of_char (s ! 1) in
            if s1 < fst accept \<or> snd accept < s1 then (RuneError, 1)
            else if sz \<le> 2 then ((s0 mod 32) * 64 + s1 mod 64, 2)
            else
              let s2 = of_char (s ! 2) in
              if s2 < 0x80 \<or> 0xBF < s2 then (RuneError, 1)
              else if sz \<le> 3 then ((s0 mod 16) * 4096 + (s1 mod 64) * 64 + s2 mod 64, 3)
              else
                let s3 = of_char (s ! 3) in
                if s3 < 0x80 \<or> 0xBF < s3 then (RuneError, 1)
                else ((s0 mod 8) * 262144 + (s1 mod 64) * 4096 + (s2 mod 64) * 64 + s3 mod 64, 4))"

definition encode3 :: "nat \<Rightarrow> string" where
  "encode3 r = [char_of (0xE0 + r div 4096), char_of (0x80 + (r div 64) mod 64), char_of (0x80 + r mod 64)]"

definition AppendRune :: "nat \<Rightarrow> string" where
  "AppendRune r =
     (if r \<le> 0x7F then [char_of r]
      else if r \<le> 0x7FF then [char_of (0xC0 + r div 64), char_of (0x80 + r mod 64)]
      else if r > 0x10FFFF \<or> (0xD800 \<le> r \<and> r \<le> 0xDFFF) then encode3 RuneError
      else if r \<le> 0xFFFF then encode3 r
      else [char_of (0xF0 + r div 262144), char_of (0x80 + (r div 4096) mod 64),
            char_of (0x80 + (r div 64) mod 64), char_of (0x80 + r mod 64)])"

definition ValidRune :: "nat \<Rightarrow> bool" where
  "ValidRune r = (r < 0xD800 \<or> (0xDFFF < r \<and> r \<le> 0x10FFFF))"

text \<open>
  \<^verbatim>\<open>strconv.IsPrint\<close>: decided in the code for Latin-1; above \<open>0xFF\<close> it searches the
  generated tables \<^verbatim>\<open>isPrint16\<close>, \<^verbatim>\<open>isNotPrint16\<close>, \<^verbatim>\<open>isPrint32\<close> and
  \<^verbatim>\<open>isNotPrint32\<close>, which are the parameter \<open>tables\<close> here. What is proved below
  holds for every table; the examples, whose names are ASCII, pass the empty one.
\<close>

definition IsPrint :: "(nat \<Rightarrow> bool) \<Rightarrow> nat \<Rightarrow> bool" where
  "IsPrint tables r =
     (if r \<le> 0xFF then
        (if 0x20 \<le> r \<and> r \<le> 0x7E then True
         else if 0xA1 \<le> r \<and> r \<le> 0xFF then r \<noteq> 0xAD
         else False)
      else tables r)"

definition lowerhex :: "nat \<Rightarrow> char" where
  "lowerhex d = ''0123456789abcdef'' ! (d mod 16)"

text \<open>The hexadecimal digits of \<open>r\<close> from bit \<open>4 * k\<close> down (the loops
  \<^verbatim>\<open>for s := 12; s >= 0; s -= 4\<close> and \<^verbatim>\<open>for s := 28; ...\<close>).\<close>

fun hexdigits :: "nat \<Rightarrow> nat \<Rightarrow> string" where
  "hexdigits 0 r = []"
| "hexdigits (Suc k) r = lowerhex (r div 16 ^ k) # hexdigits k r"

text \<open>\<^verbatim>\<open>appendEscapedRune(buf, r, '"', false, false)\<close>: what it appends to \<^verbatim>\<open>buf\<close>.\<close>

definition appendEscapedRune :: "(nat \<Rightarrow> bool) \<Rightarrow> nat \<Rightarrow> string" where
  "appendEscapedRune tables r =
     (if r = 0x22 \<or> r = 0x5C then [CHR 0x5C, char_of r]
      else if IsPrint tables r then AppendRune r
      else if r = 7 then [CHR 0x5C, CHR ''a'']
      else if r = 8 then [CHR 0x5C, CHR ''b'']
      else if r = 12 then [CHR 0x5C, CHR ''f'']
      else if r = 10 then [CHR 0x5C, CHR ''n'']
      else if r = 13 then [CHR 0x5C, CHR ''r'']
      else if r = 9 then [CHR 0x5C, CHR ''t'']
      else if r = 11 then [CHR 0x5C, CHR ''v'']
      else if r < 0x20 \<or> r = 0x7F then [CHR 0x5C, CHR ''x''] @ hexdigits 2 r
      else if \<not> ValidRune r then [CHR 0x5C, CHR ''u''] @ hexdigits 4 RuneError
      else if r < 0x10000 then [CHR 0x5C, CHR ''u''] @ hexdigits 4 r
      else [CHR 0x5C, CHR ''U''] @ hexdigits 8 r)"

text \<open>The loop \<^verbatim>\<open>for width := 0; len(s) > 0; s = s[width:]\<close> of
  \<^verbatim>\<open>appendQuotedWith\<close>.\<close>

definition nextRune :: "string \<Rightarrow> nat \<times> nat" where
  "nextRune s = (if of_char (hd s) \<ge> (0x80 :: nat) then DecodeRuneInString s else (of_char (hd s), 1))"

text \<open>Every round consumes at least one byte, so the loop ends.\<close>

lemma nextRune_width: "s \<noteq> [] \<Longrightarrow> 0 < snd (nextRune s)"
  by (auto simp: nextRune_def DecodeRuneInString_def Let_def)

function appendQuotedWith_loop :: "(nat \<Rightarrow> bool) \<Rightarrow> string \<Rightarrow> string \<Rightarrow> string" where
  "appendQuotedWith_loop tables buf s =
     (if s = [] then buf
      else
        let r = fst (nextRune s); width = snd (nextRune s) in
        if width = 1 \<and> r = RuneError
        then appendQuotedWith_loop tables
               (buf @ [CHR 0x5C, CHR ''x'', lowerhex (of_char (hd s) div 16), lowerhex (of_char (hd s) mod 16)])
               (drop width s)
        else appendQuotedWith_loop tables (buf @ appendEscapedRune tables r) (drop width s))"
  by pat_completeness auto
termination
  by (relation "measure (\<lambda>(tables, buf, s). length s)") (use nextRune_width in auto)

declare appendQuotedWith_loop.simps [simp del]

definition Quote :: "(nat \<Rightarrow> bool) \<Rightarrow> string \<Rightarrow> string" where
  "Quote tables s = appendQuotedWith_loop tables [CHR 0x22] s @ [CHR 0x22]"

text \<open>The two loops, with the map of names seen so far and the slice \<^verbatim>\<open>causes\<close> as
  accumulators.\<close>

fun validateNetworkNameUnique_loop ::
  "(nat \<Rightarrow> bool) \<Rightarrow> Path \<Rightarrow> (string \<rightharpoonup> unit) \<Rightarrow> int \<Rightarrow> Network list \<Rightarrow> StatusCause list \<Rightarrow> StatusCause list" where
  "validateNetworkNameUnique_loop tables field networkSet i [] causes = causes"
| "validateNetworkNameUnique_loop tables field networkSet i (network # rest) causes =
     validateNetworkNameUnique_loop tables field (networkSet(Network.Name network \<mapsto> ())) (i + 1) rest
       (if networkSet (Network.Name network) \<noteq> None
        then causes @ [\<lparr>Type = CauseTypeFieldValueDuplicate,
                         Message = ''Network with name '' @ Quote tables (Network.Name network)
                                   @ '' already exists, every network must have a unique name'',
                         Field = networkNamePath field i\<rparr>]
        else causes)"

definition validateNetworkNameUnique ::
  "(nat \<Rightarrow> bool) \<Rightarrow> Path \<Rightarrow> VirtualMachineInstanceSpec \<Rightarrow> StatusCause list" where
  "validateNetworkNameUnique tables field spec =
     validateNetworkNameUnique_loop tables field Map.empty 0 (Networks spec) []"

fun validateInterfaceNameUnique_loop ::
  "Path \<Rightarrow> (string \<rightharpoonup> unit) \<Rightarrow> int \<Rightarrow> Interface list \<Rightarrow> StatusCause list \<Rightarrow> StatusCause list" where
  "validateInterfaceNameUnique_loop field ifaceSet idx [] causes = causes"
| "validateInterfaceNameUnique_loop field ifaceSet idx (iface # rest) causes =
     validateInterfaceNameUnique_loop field (ifaceSet(Interface.Name iface \<mapsto> ())) (idx + 1) rest
       (if ifaceSet (Interface.Name iface) \<noteq> None
        then causes @ [\<lparr>Type = CauseTypeFieldValueDuplicate,
                         Message = ''Only one interface can be connected to one specific network'',
                         Field = interfaceFieldPath field idx ''name''\<rparr>]
        else causes)"

definition validateInterfaceNameUnique ::
  "Path \<Rightarrow> VirtualMachineInstanceSpec \<Rightarrow> StatusCause list" where
  "validateInterfaceNameUnique field spec =
     validateInterfaceNameUnique_loop field Map.empty 0
       (Interfaces (Devices (VirtualMachineInstanceSpec.Domain spec))) []"

section \<open>Field-format checks\<close>

subsection \<open>Interface name\<close>

text \<open>
  \<^verbatim>\<open>regexp.MustCompile(`^[A-Za-z0-9-_]+$`).MatchString\<close>: the class holds the three
  ranges and the two single characters \<^verbatim>\<open>-\<close> and \<^verbatim>\<open>_\<close>; without the flag
  \<^verbatim>\<open>m\<close>, \<^verbatim>\<open>^\<close> and \<^verbatim>\<open>$\<close> match only at the beginning and at the end of
  the text, so the whole name is one or more characters of the class. Every character
  of the class is a single byte, so the match can be read byte by byte. The pattern is a
  constant that compiles, so \<^verbatim>\<open>MustCompile\<close> does not panic.
\<close>

definition inRange :: "char \<Rightarrow> char \<Rightarrow> char \<Rightarrow> bool" where
  "inRange lo hi c = ((of_char lo :: nat) \<le> of_char c \<and> (of_char c :: nat) \<le> of_char hi)"

definition nameClass :: "char \<Rightarrow> bool" where
  "nameClass c =
     (inRange (CHR ''A'') (CHR ''Z'') c \<or> inRange (CHR ''a'') (CHR ''z'') c
      \<or> inRange (CHR ''0'') (CHR ''9'') c \<or> c = CHR ''-'' \<or> c = CHR ''_'')"

definition isValid :: "string \<Rightarrow> bool" where
  "isValid s = (s \<noteq> [] \<and> list_all nameClass s)"

definition validateInterfaceNameFormat :: "Path \<Rightarrow> int \<Rightarrow> Interface \<Rightarrow> StatusCause list" where
  "validateInterfaceNameFormat field idx iface =
     (if \<not> isValid (Interface.Name iface)
      then [\<lparr>Type = CauseTypeFieldValueInvalid,
              Message = ''Network interface name can only contain alphabetical characters, numbers, dashes (-) or underscores (_)'',
              Field = interfaceFieldPath field idx ''name''\<rparr>]
      else [])"

subsection \<open>Interface model\<close>

text \<open>
  Modelled from the spec: the constant \<^verbatim>\<open>v1.VirtIO\<close> is declared outside the source
  files; the spec calls it "the platform's default paravirtualized NIC identifier",
  and C6 names it: \<^verbatim>\<open>virtio\<close>.
\<close>

definition VirtIO :: string where
  "VirtIO = ''virtio''"

definition validInterfaceModels :: "string \<rightharpoonup> unit" where
  "validInterfaceModels =
     map_of [(''e1000'', ()), (''e1000e'', ()), (''ne2k_pci'', ()), (''pcnet'', ()),
             (''rtl8139'', ()), (VirtIO, ())]"

definition validateInterfaceModel :: "Path \<Rightarrow> int \<Rightarrow> Interface \<Rightarrow> StatusCause list" where
  "validateInterfaceModel field idx iface =
     (if Model iface \<noteq> [] then
        (if validInterfaceModels (Model iface) = None
         then [\<lparr>Type = CauseTypeFieldValueNotSupported,
                 Message = ''interface '' @ interfaceFieldPath field idx ''name'' @ '' uses model ''
                           @ Model iface @ '' that is not supported.'',
                 Field = interfaceFieldPath field idx ''model''\<rparr>]
         else [])
      else [])"

subsection \<open>MAC address\<close>

text \<open>
  \<^verbatim>\<open>net.ParseMAC\<close> of the Go standard library indexes and slices its argument. An
  index or a slice bound out of range is a run-time panic in Go, so the operations
  return a sum: \<open>Inl\<close> a panic, \<open>Inr\<close> the value.
\<close>

datatype panic = IndexOutOfRange | SliceBoundsOutOfRange

definition bindp :: "panic + 'a \<Rightarrow> ('a \<Rightarrow> panic + 'b) \<Rightarrow> panic + 'b" where
  "bindp m f = (case m of Inl p \<Rightarrow> Inl p | Inr v \<Rightarrow> f v)"

definition at :: "'a list \<Rightarrow> nat \<Rightarrow> panic + 'a" where
  "at s i = (if i < length s then Inr (s ! i) else Inl IndexOutOfRange)"

definition sliceFrom :: "'a list \<Rightarrow> nat \<Rightarrow> panic + 'a list" where
  "sliceFrom s lo = (if lo \<le> length s then Inr (drop lo s) else Inl SliceBoundsOutOfRange)"

definition sliceTo :: "'a list \<Rightarrow> nat \<Rightarrow> panic + 'a list" where
  "sliceTo s hi = (if hi \<le> length s then Inr (take hi s) else Inl SliceBoundsOutOfRange)"

definition slice :: "'a list \<Rightarrow> nat \<Rightarrow> nat \<Rightarrow> panic + 'a list" where
  "slice s lo hi =
     (if lo \<le> hi \<and> hi \<le> length s then Inr (take (hi - lo) (drop lo s))
      else Inl SliceBoundsOutOfRange)"

definition store :: "'a list \<Rightarrow> nat \<Rightarrow> 'a \<Rightarrow> panic + 'a list" where
  "store hw i b = (if i < length hw then Inr (hw[i := b]) else Inl IndexOutOfRange)"

type_synonym byte = "8 word"

type_synonym HardwareAddr = "byte list"

datatype error = AddrError (Err: string) (Addr: string) | PciAddressError string

text \<open>
  \<^verbatim>\<open>xtoi\<close>: the hexadecimal number at the start of \<^verbatim>\<open>s\<close>, the number of characters
  read, and success. The loop reads \<^verbatim>\<open>s[i]\<close> under the guard \<^verbatim>\<open>i < len(s)\<close>; it is a
  recursion over the characters left. The guard \<^verbatim>\<open>n >= big\<close> keeps \<^verbatim>\<open>n\<close> far from
  the range of \<^verbatim>\<open>int\<close>.
\<close>

definition big :: nat where
  "big = 0xFFFFFF"

definition hexval :: "char \<Rightarrow> nat option" where
  "hexval c =
     (if inRange (CHR ''0'') (CHR ''9'') c then Some (of_char c - of_char (CHR ''0''))
      else if inRange (CHR ''a'') (CHR ''f'') c then Some (of_char c - of_char (CHR ''a'') + 10)
      else if inRange (CHR ''A'') (CHR ''F'') c then Some (of_char c - of_char (CHR ''A'') + 10)
      else None)"

fun xtoi_loop :: "string \<Rightarrow> nat \<Rightarrow> nat \<Rightarrow> nat \<times> nat \<times> bool" where
  "xtoi_loop [] n i = (if i = 0 then (0, i, False) else (n, i, True))"
| "xtoi_loop (c # cs) n i =
     (case hexval c of
        None \<Rightarrow> (if i = 0 then (0, i, False) else (n, i, True))
      | Some d \<Rightarrow>
          (let n' = n * 16 + d in
           if n' \<ge> big then (0, i, False) else xtoi_loop cs n' (i + 1)))"

definition xtoi :: "string \<Rightarrow> nat \<times> nat \<times> bool" where
  "xtoi s = xtoi_loop s 0 0"

text \<open>\<^verbatim>\<open>xtoi2(s, e)\<close>: the next two hex digits of \<^verbatim>\<open>s\<close> as a byte; when \<^verbatim>\<open>s\<close> is
  longer than two bytes the third must be \<^verbatim>\<open>e\<close>.\<close>

definition xtoi2_digits :: "string \<Rightarrow> panic + (byte \<times> bool)" where
  "xtoi2_digits s =
     bindp (sliceTo s 2) (\<lambda>s2.
       case xtoi s2 of (n, ei, ok) \<Rightarrow> Inr (of_nat n, ok \<and> ei = 2))"

definition xtoi2 :: "string \<Rightarrow> char \<Rightarrow> panic + (byte \<times> bool)" where
  "xtoi2 s e =
     (if length s > 2
      then bindp (at s 2) (\<lambda>c. if c \<noteq> e then Inr (0, False) else xtoi2_digits s)
      else xtoi2_digits s)"

text \<open>
  \<^verbatim>\<open>net.ParseMAC\<close> belongs to the Go standard library, not to the source files. It
  reads three textual forms: octets separated by colons or hyphens
  (\<^verbatim>\<open>00:00:5e:00:53:01\<close>, \<^verbatim>\<open>00-00-5e-00-53-01\<close>), groups of four digits separated by
  dots (\<^verbatim>\<open>0000.5e00.5301\<close>) and, in the newer releases of the library, the digits
  alone (\<^verbatim>\<open>00005e005301\<close>); each for 6, 8 or 20 octets. The first two branches are
  the library's text. The third is written after the pattern of the dotted one, from
  what the library accepts: 12, 16 or 40 hexadecimal digits, so that the shortest text
  that can be an address has 12 bytes.

  The three loops of \<^verbatim>\<open>ParseMAC\<close>. \<open>None\<close> is \<^verbatim>\<open>goto error\<close>; \<open>Some hw\<close> is the
  filled address when the loop ends.
\<close>

function ParseMAC_colons :: "string \<Rightarrow> nat \<Rightarrow> nat \<Rightarrow> nat \<Rightarrow> HardwareAddr \<Rightarrow> panic + HardwareAddr option" where
  "ParseMAC_colons s n x i hw =
     (if i < n then
        bindp (sliceFrom s x) (\<lambda>sx.
        bindp (at s 2) (\<lambda>e.
        bindp (xtoi2 sx e) (\<lambda>(b, ok).
        bindp (store hw i b) (\<lambda>hw'.
          if \<not> ok then Inr None
          else ParseMAC_colons s n (x + 3) (i + 1) hw'))))
      else Inr (Some hw))"
  by pat_completeness auto
termination
  by (relation "measure (\<lambda>(s, n, x, i, hw). n - i)") auto

declare ParseMAC_colons.simps [simp del]

function ParseMAC_dots :: "string \<Rightarrow> nat \<Rightarrow> nat \<Rightarrow> nat \<Rightarrow> HardwareAddr \<Rightarrow> panic + HardwareAddr option" where
  "ParseMAC_dots s n x i hw =
     (if i < n then
        bindp (slice s x (x + 2)) (\<lambda>sx.
        bindp (xtoi2 sx (CHR 0x00)) (\<lambda>(b, ok).
        bindp (store hw i b) (\<lambda>hw'.
          if \<not> ok then Inr None
          else
            bindp (sliceFrom s (x + 2)) (\<lambda>sx'.
            bindp (at s 4) (\<lambda>e.
            bindp (xtoi2 sx' e) (\<lambda>(b', ok').
            bindp (store hw' (i + 1) b') (\<lambda>hw''.
              if \<not> ok' then Inr None
              else ParseMAC_dots s n (x + 5) (i + 2) hw'')))))))
      else Inr (Some hw))"
  by pat_completeness auto
termination
  by (relation "measure (\<lambda>(s, n, x, i, hw). n - i)") auto

declare ParseMAC_dots.simps [simp del]

function ParseMAC_plain :: "string \<Rightarrow> nat \<Rightarrow> nat \<Rightarrow> nat \<Rightarrow> HardwareAddr \<Rightarrow> panic + HardwareAddr option" where
  "ParseMAC_plain s n x i hw =
     (if i < n then
        bindp (slice s x (x + 2)) (\<lambda>sx.
        bindp (xtoi2 sx (CHR 0x00)) (\<lambda>(b, ok).
        bindp (store hw i b) (\<lambda>hw'.
          if \<not> ok then Inr None
          else ParseMAC_plain s n (x + 2) (i + 1) hw')))
      else Inr (Some hw))"
  by pat_completeness auto
termination
  by (relation "measure (\<lambda>(s, n, x, i, hw). n - i)") auto

declare ParseMAC_plain.simps [simp del]

text \<open>
  \<^verbatim>\<open>ParseMAC\<close> returns \<^verbatim>\<open>(hw, nil)\<close>, or at the label \<^verbatim>\<open>error\<close> the pair
  \<^verbatim>\<open>(nil, &AddrError{Err: "invalid MAC address", Addr: s})\<close>; the nil slice is the
  empty list.
\<close>

definition invalidMAC :: "string \<Rightarrow> panic + (HardwareAddr \<times> error option)" where
  "invalidMAC s = Inr ([], Some (AddrError ''invalid MAC address'' s))"

definition ParseMAC_result :: "string \<Rightarrow> HardwareAddr option \<Rightarrow> panic + (HardwareAddr \<times> error option)" where
  "ParseMAC_result s r = (case r of None \<Rightarrow> invalidMAC s | Some hw \<Rightarrow> Inr (hw, None))"

definition ParseMAC :: "string \<Rightarrow> panic + (HardwareAddr \<times> error option)" where
  "ParseMAC s =
     (if length s < 12 then invalidMAC s
      else
        bindp (at s 2) (\<lambda>c2.
          if c2 = CHR '':'' \<or> c2 = CHR ''-'' then
            (if (length s + 1) mod 3 \<noteq> 0 then invalidMAC s
             else
               let n = (length s + 1) div 3 in
               if n \<noteq> 6 \<and> n \<noteq> 8 \<and> n \<noteq> 20 then invalidMAC s
               else bindp (ParseMAC_colons s n 0 0 (replicate n 0)) (ParseMAC_result s))
          else
            bindp (at s 4) (\<lambda>c4.
              if c4 = CHR ''.'' then
                (if (length s + 1) mod 5 \<noteq> 0 then invalidMAC s
                 else
                   let n = 2 * (length s + 1) div 5 in
                   if n \<noteq> 6 \<and> n \<noteq> 8 \<and> n \<noteq> 20 then invalidMAC s
                   else bindp (ParseMAC_dots s n 0 0 (replicate n 0)) (ParseMAC_result s))
              else
                (if length s mod 2 \<noteq> 0 then invalidMAC s
                 else
                   let n = length s div 2 in
                   if n \<noteq> 6 \<and> n \<noteq> 8 \<and> n \<noteq> 20 then invalidMAC s
                   else bindp (ParseMAC_plain s n 0 0 (replicate n 0)) (ParseMAC_result s)))))"

definition macLen :: nat where
  "macLen = 6"

definition validateMacAddress :: "Path \<Rightarrow> int \<Rightarrow> Interface \<Rightarrow> panic + StatusCause list" where
  "validateMacAddress field idx iface =
     (if MacAddress iface \<noteq> [] then
        bindp (ParseMAC (MacAddress iface)) (\<lambda>(mac, err).
          let causes = [];
              causes =
                (if err \<noteq> None
                 then causes @ [\<lparr>Type = CauseTypeFieldValueInvalid,
                                  Message = ''interface '' @ interfaceFieldPath field idx ''name''
                                            @ '' has malformed MAC address ('' @ MacAddress iface @ '').'',
                                  Field = interfaceFieldPath field idx ''macAddress''\<rparr>]
                 else causes);
              causes =
                (if length mac > macLen
                 then causes @ [\<lparr>Type = CauseTypeFieldValueInvalid,
                                  Message = ''interface '' @ interfaceFieldPath field idx ''name''
                                            @ '' has MAC address ('' @ MacAddress iface @ '') that is too long.'',
                                  Field = interfaceFieldPath field idx ''macAddress''\<rparr>]
                 else causes)
          in Inr causes)
      else Inr [])"

subsection \<open>PCI address\<close>

definition isHexDigit :: "char \<Rightarrow> bool" where
  "isHexDigit c = (hexval c \<noteq> None)"

text \<open>
  Modelled from the spec: the grammar of \<^verbatim>\<open>hwutil.ParsePciAddress\<close>, which is not
  among the source files. The spec (4.3) gives it as "domain:bus:device.function, each
  component a fixed-width hexadecimal field" and (8) names \<^verbatim>\<open>0000:00:1f.2\<close> as
  well-formed; the widths 4, 2, 2 and 1 are the ones of that address.
\<close>

definition matchesPciAddress :: "string \<Rightarrow> bool" where
  "matchesPciAddress s =
     (length s = 12
      \<and> list_all isHexDigit (take 4 s) \<and> s ! 4 = CHR '':''
      \<and> list_all isHexDigit (take 2 (drop 5 s)) \<and> s ! 7 = CHR '':''
      \<and> list_all isHexDigit (take 2 (drop 8 s)) \<and> s ! 10 = CHR ''.''
      \<and> isHexDigit (s ! 11))"

text \<open>
  Modelled from the spec: \<^verbatim>\<open>hwutil.ParsePciAddress\<close> fails "if the string does not
  match the platform PCI-address grammar". The caller discards the parsed value
  (\<^verbatim>\<open>_, err := ...\<close>), so only the error is returned here.
\<close>

definition ParsePciAddress :: "string \<Rightarrow> error option" where
  "ParsePciAddress pciAddress =
     (if matchesPciAddress pciAddress then None else Some (PciAddressError pciAddress))"

definition validatePciAddress :: "Path \<Rightarrow> int \<Rightarrow> Interface \<Rightarrow> StatusCause list" where
  "validatePciAddress field idx iface =
     (if PciAddress iface \<noteq> [] then
        (let err = ParsePciAddress (PciAddress iface) in
         if err \<noteq> None
         then [\<lparr>Type = CauseTypeFieldValueInvalid,
                 Message = ''interface '' @ interfaceFieldPath field idx ''name''
                           @ '' has malformed PCI address ('' @ PciAddress iface @ '').'',
                 Field = interfaceFieldPath field idx ''pciAddress''\<rparr>]
         else [])
      else [])"

subsection \<open>All interfaces\<close>

text \<open>The loop of \<^verbatim>\<open>validateInterfacesFields\<close>; a panic of a sub-check would end it.\<close>

fun validateInterfacesFields_loop ::
  "Path \<Rightarrow> int \<Rightarrow> Interface list \<Rightarrow> StatusCause list \<Rightarrow> panic + StatusCause list" where
  "validateInterfacesFields_loop field idx [] causes = Inr causes"
| "validateInterfacesFields_loop field idx (iface # rest) causes =
     (let causes = causes @ validateInterfaceNameFormat field idx iface;
          causes = causes @ validateInterfaceModel field idx iface
      in bindp (validateMacAddress field idx iface) (\<lambda>macCauses.
           let causes = causes @ macCauses;
               causes = causes @ validatePciAddress field idx iface
           in validateInterfacesFields_loop field (idx + 1) rest causes))"

definition validateInterfacesFields ::
  "Path \<Rightarrow> VirtualMachineInstanceSpec \<Rightarrow> panic + StatusCause list" where
  "validateInterfacesFields field spec =
     validateInterfacesFields_loop field 0
       (Interfaces (Devices (VirtualMachineInstanceSpec.Domain spec))) []"

section \<open>The checks as Go executes them\<close>

text \<open>
  The definitions above give the value a check computes. The ones below follow a run:
  an index or slice expression may panic, a loop over the parents of a path may not
  end, \<^verbatim>\<open>Child\<close> and \<^verbatim>\<open>Index\<close> allocate and write nodes, the spec sits in the
  state, and a map has an order that the run-time system chooses.
\<close>

subsection \<open>\<^verbatim>\<open>strconv.Quote\<close> with its index expressions\<close>

text \<open>
  Every call below a \<open>bindp\<close> happens only when what comes before it has returned.
\<close>

lemma bindp_cong [fundef_cong]:
  "m = m' \<Longrightarrow> (\<And>v. m' = Inr v \<Longrightarrow> f v = f' v) \<Longrightarrow> bindp m f = bindp m' f'"
  by (cases m') (auto simp: bindp_def)

text \<open>
  \<^verbatim>\<open>strconv.Quote\<close> once more, now with every index and slice expression of the
  original as an operation that can panic: \<^verbatim>\<open>lowerhex[...]\<close>, \<^verbatim>\<open>s[0]\<close> to
  \<^verbatim>\<open>s[3]\<close> in \<^verbatim>\<open>DecodeRuneInString\<close>, \<^verbatim>\<open>s[0]\<close> and \<^verbatim>\<open>s[width:]\<close> in the
  loop of \<^verbatim>\<open>appendQuotedWith\<close>. The tables \<^verbatim>\<open>first\<close> (256 entries, indexed by a
  byte) and \<^verbatim>\<open>acceptRanges\<close> (16 entries, indexed by the high four bits of a byte)
  cannot be indexed out of range.
\<close>

definition lowerhex_p :: "nat \<Rightarrow> panic + char" where
  "lowerhex_p d = at ''0123456789abcdef'' d"

fun hexdigits_p :: "nat \<Rightarrow> nat \<Rightarrow> panic + string" where
  "hexdigits_p 0 r = Inr []"
| "hexdigits_p (Suc k) r =
     bindp (lowerhex_p ((r div 16 ^ k) mod 16)) (\<lambda>c.
     bindp (hexdigits_p k r) (\<lambda>cs. Inr (c # cs)))"

definition appendEscapedRune_p :: "(nat \<Rightarrow> bool) \<Rightarrow> nat \<Rightarrow> panic + string" where
  "appendEscapedRune_p tables r =
     (if r = 0x22 \<or> r = 0x5C then Inr [CHR 0x5C, char_of r]
      else if IsPrint tables r then Inr (AppendRune r)
      else if r = 7 then Inr [CHR 0x5C, CHR ''a'']
      else if r = 8 then Inr [CHR 0x5C, CHR ''b'']
      else if r = 12 then Inr [CHR 0x5C, CHR ''f'']
      else if r = 10 then Inr [CHR 0x5C, CHR ''n'']
      else if r = 13 then Inr [CHR 0x5C, CHR ''r'']
      else if r = 9 then Inr [CHR 0x5C, CHR ''t'']
      else if r = 11 then Inr [CHR 0x5C, CHR ''v'']
      else if r < 0x20 \<or> r = 0x7F then
        bindp (lowerhex_p ((r mod 256) div 16)) (\<lambda>a.
        bindp (lowerhex_p ((r mod 256) mod 16)) (\<lambda>b. Inr [CHR 0x5C, CHR ''x'', a, b]))
      else if \<not> ValidRune r then bindp (hexdigits_p 4 RuneError) (\<lambda>ds. Inr ([CHR 0x5C, CHR ''u''] @ ds))
      else if r < 0x10000 then bindp (hexdigits_p 4 r) (\<lambda>ds. Inr ([CHR 0x5C, CHR ''u''] @ ds))
      else bindp (hexdigits_p 8 r) (\<lambda>ds. Inr ([CHR 0x5C, CHR ''U''] @ ds)))"

definition DecodeRuneInString_p :: "string \<Rightarrow> panic + (nat \<times> nat)" where
  "DecodeRuneInString_p s =
     (let n = length s in
      if n < 1 then Inr (RuneError, 0)
      else
        bindp (at s 0) (\<lambda>c0.
        let s0 = of_char c0; x = first s0 in
        if x \<ge> 0xF0 then Inr ((if x = 0xF0 then s0 else RuneError), 1)
        else
          let sz = x mod 8; accept = acceptRanges (x div 16) in
          if n < sz then Inr (RuneError, 1)
          else
            bindp (at s 1) (\<lambda>c1.
            let s1 = of_char c1 in
            if s1 < fst accept \<or> snd accept < s1 then Inr (RuneError, 1)
            else if sz \<le> 2 then Inr ((s0 mod 32) * 64 + s1 mod 64, 2)
            else
              bindp (at s 2) (\<lambda>c2.
              let s2 = of_char c2 in
              if s2 < 0x80 \<or> 0xBF < s2 then Inr (RuneError, 1)
              else if sz \<le> 3 then Inr ((s0 mod 16) * 4096 + (s1 mod 64) * 64 + s2 mod 64, 3)
              else
                bindp (at s 3) (\<lambda>c3.
                let s3 = of_char c3 in
                if s3 < 0x80 \<or> 0xBF < s3 then Inr (RuneError, 1)
                else Inr ((s0 mod 8) * 262144 + (s1 mod 64) * 4096 + (s2 mod 64) * 64 + s3 mod 64, 4))))))"

definition nextRune_p :: "string \<Rightarrow> panic + (nat \<times> nat)" where
  "nextRune_p s =
     bindp (at s 0) (\<lambda>c. if of_char c \<ge> (0x80 :: nat) then DecodeRuneInString_p s else Inr (of_char c, 1))"

text \<open>Every round consumes at least one byte, so the loop ends.\<close>

lemma nextRune_p_width: "nextRune_p s = Inr (r, width) \<Longrightarrow> 0 < width"
  by (auto simp: nextRune_p_def DecodeRuneInString_p_def Let_def bindp_def at_def
      split: if_splits sum.splits)

function appendQuotedWith_loop_p :: "(nat \<Rightarrow> bool) \<Rightarrow> string \<Rightarrow> string \<Rightarrow> panic + string" where
  "appendQuotedWith_loop_p tables buf s =
     (if s = [] then Inr buf
      else
        bindp (nextRune_p s) (\<lambda>(r, width).
          if width = 1 \<and> r = RuneError then
            bindp (at s 0) (\<lambda>c.
            bindp (lowerhex_p (of_char c div 16)) (\<lambda>a.
            bindp (at s 0) (\<lambda>c'.
            bindp (lowerhex_p (of_char c' mod 16)) (\<lambda>b.
            bindp (sliceFrom s width) (\<lambda>s'.
              appendQuotedWith_loop_p tables (buf @ [CHR 0x5C, CHR ''x'', a, b]) s')))))
          else
            bindp (appendEscapedRune_p tables r) (\<lambda>esc.
            bindp (sliceFrom s width) (\<lambda>s'.
              appendQuotedWith_loop_p tables (buf @ esc) s'))))"
  by pat_completeness auto
termination
proof (relation "measure (\<lambda>(tables, buf, s). length s)")
  show "wf (measure (\<lambda>(tables, buf, s). length s))" by simp
next
  fix tables :: "nat \<Rightarrow> bool" and buf s :: string and v x y c a c' b s'
  assume "s \<noteq> []" "nextRune_p s = Inr v" "(x, y) = v" "y = 1 \<and> x = RuneError" "sliceFrom s y = Inr s'"
  then show "((tables, buf @ [CHR 0x5C, CHR ''x'', a, b], s'), (tables, buf, s)) \<in> measure (\<lambda>(tables, buf, s). length s)"
    by (auto simp: sliceFrom_def split: if_splits)
next
  fix tables :: "nat \<Rightarrow> bool" and buf s :: string and v x y esc s'
  assume "s \<noteq> []" "nextRune_p s = Inr v" "(x, y) = v" "sliceFrom s y = Inr s'"
  then show "((tables, buf @ esc, s'), (tables, buf, s)) \<in> measure (\<lambda>(tables, buf, s). length s)"
    using nextRune_p_width [of s x y] by (auto simp: sliceFrom_def split: if_splits)
qed

declare appendQuotedWith_loop_p.simps [simp del]

definition Quote_p :: "(nat \<Rightarrow> bool) \<Rightarrow> string \<Rightarrow> panic + string" where
  "Quote_p tables s = bindp (appendQuotedWith_loop_p tables [CHR 0x22] s) (\<lambda>buf. Inr (buf @ [CHR 0x22]))"

subsection \<open>Runs\<close>

text \<open>
  What a call does: it returns a value, it panics, or it does not return.
\<close>

datatype 'a outcome = Returns 'a | Panics panic | Diverges

text \<open>
  The objects a check can reach: the \<^verbatim>\<open>Path\<close> nodes allocated so far, and the
  \<^verbatim>\<open>VirtualMachineInstanceSpec\<close> its argument \<^verbatim>\<open>spec\<close> points to (the pointer is
  taken not to be nil: a check reads through it before anything else). A check is a
  function from the state before the call to the outcome and the state after it.
\<close>

record state =
  paths :: heap
  vmiSpec :: VirtualMachineInstanceSpec

type_synonym 'a exec = "state \<Rightarrow> ('a \<times> state) outcome"

definition returnx :: "'a \<Rightarrow> 'a exec" where
  "returnx v = (\<lambda>st. Returns (v, st))"

definition bindx :: "'a exec \<Rightarrow> ('a \<Rightarrow> 'b exec) \<Rightarrow> 'b exec" where
  "bindx m f =
     (\<lambda>st. case m st of Returns (v, st') \<Rightarrow> f v st' | Panics p \<Rightarrow> Panics p | Diverges \<Rightarrow> Diverges)"

definition liftp :: "panic + 'a \<Rightarrow> 'a exec" where
  "liftp r = (\<lambda>st. case r of Inl p \<Rightarrow> Panics p | Inr v \<Rightarrow> Returns (v, st))"

text \<open>
  \<^verbatim>\<open>p.String()\<close> on the heap. The first loop,
  \<^verbatim>\<open>for ; p != nil; p = p.parent { elems = append(elems, p) }\<close>, need not end on an
  arbitrary heap. The second, \<^verbatim>\<open>for i := range elems\<close>, reads
  \<^verbatim>\<open>elems[len(elems)-1-i]\<close>, an index expression on \<^verbatim>\<open>int\<close>.
\<close>

definition at_int :: "'a list \<Rightarrow> int \<Rightarrow> panic + 'a" where
  "at_int s i = (if 0 \<le> i \<and> nat i < length s then Inr (s ! nat i) else Inl IndexOutOfRange)"

partial_function (option) elems_h :: "heap \<Rightarrow> nat option \<Rightarrow> nat list \<Rightarrow> nat list option" where
  "elems_h h p es =
     (case p of
        None \<Rightarrow> Some es
      | Some a \<Rightarrow> if a < length h then elems_h h (nodeParent (h ! a)) (es @ [a]) else None)"

declare elems_h.simps [code]

definition writeElem_h :: "heap \<Rightarrow> nat \<Rightarrow> string" where
  "writeElem_h h a =
     (if nodeParent (h ! a) \<noteq> None \<and> nodeName (h ! a) \<noteq> [] then ''.'' else [])
     @ (if nodeName (h ! a) \<noteq> [] then nodeName (h ! a) else ''['' @ nodeIndex (h ! a) @ '']'')"

fun String_loop :: "heap \<Rightarrow> nat list \<Rightarrow> nat list \<Rightarrow> string \<Rightarrow> panic + string" where
  "String_loop h es [] buf = Inr buf"
| "String_loop h es (i # rest) buf =
     bindp (at_int es (int (length es) - 1 - int i)) (\<lambda>p.
       String_loop h es rest (buf @ writeElem_h h p))"

definition String_h :: "heap \<Rightarrow> nat option \<Rightarrow> (panic + string) option" where
  "String_h h p =
     (if p = None then Some (Inr ''<nil>'')
      else (case elems_h h p [] of
              None \<Rightarrow> None
            | Some es \<Rightarrow> Some (String_loop h es [0..<length es] [])))"

text \<open>The path operations as steps of a run.\<close>

definition Child_x :: "nat option \<Rightarrow> string \<Rightarrow> string list \<Rightarrow> (nat option) exec" where
  "Child_x p nm moreNames =
     (\<lambda>st. case Child_h (paths st) p nm moreNames of
              None \<Rightarrow> Diverges
            | Some (h', r) \<Rightarrow> Returns (Some r, st\<lparr>paths := h'\<rparr>))"

definition Index_x :: "nat option \<Rightarrow> int \<Rightarrow> (nat option) exec" where
  "Index_x p i =
     (\<lambda>st. case Index_h (paths st) p i of (h', r) \<Rightarrow> Returns (Some r, st\<lparr>paths := h'\<rparr>))"

definition String_x :: "nat option \<Rightarrow> string exec" where
  "String_x p =
     (\<lambda>st. case String_h (paths st) p of
              None \<Rightarrow> Diverges
            | Some r \<Rightarrow> liftp r st)"

text \<open>The two path expressions of the checks,
  \<^verbatim>\<open>field.Child("networks").Index(i).Child("name").String()\<close> and
  \<^verbatim>\<open>field.Child("domain", "devices", "interfaces").Index(idx).Child(leaf).String()\<close>.\<close>

definition networkNamePath_x :: "nat option \<Rightarrow> int \<Rightarrow> string exec" where
  "networkNamePath_x field i =
     bindx (Child_x field ''networks'' []) (\<lambda>a.
     bindx (Index_x a i) (\<lambda>b.
     bindx (Child_x b ''name'' []) (\<lambda>c. String_x c)))"

definition interfaceFieldPath_x :: "nat option \<Rightarrow> int \<Rightarrow> string \<Rightarrow> string exec" where
  "interfaceFieldPath_x field idx leaf =
     bindx (Child_x field ''domain'' [''devices'', ''interfaces'']) (\<lambda>a.
     bindx (Index_x a idx) (\<lambda>b.
     bindx (Child_x b leaf []) (\<lambda>c. String_x c)))"

text \<open>
  A Go map, as the run-time system holds it: the entries in the order in which a
  \<^verbatim>\<open>range\<close> loop would visit them. That order is not specified and differs from run
  to run; here it comes from \<open>hash\<close>, the hash function of the run, which decides
  where a new key is placed. \<^verbatim>\<open>m[k]\<close> and \<^verbatim>\<open>m[k] = v\<close> are the only map
  operations of the checks.
\<close>

type_synonym ('k, 'v) gomap = "('k \<times> 'v) list"

definition mapaccess :: "('k, 'v) gomap \<Rightarrow> 'k \<Rightarrow> 'v option" where
  "mapaccess m k = map_of m k"

definition mapassign :: "('k \<Rightarrow> nat) \<Rightarrow> ('k, 'v) gomap \<Rightarrow> 'k \<Rightarrow> 'v \<Rightarrow> ('k, 'v) gomap" where
  "mapassign hash m k v =
     (if map_of m k \<noteq> None then map (\<lambda>(k', v'). if k' = k then (k', v) else (k', v')) m
      else let j = hash k mod (length m + 1) in take j m @ (k, v) # drop j m)"

text \<open>
  Modelled from the spec: \<^verbatim>\<open>vmispec.IndexInterfaceSpecByName\<close> and
  \<^verbatim>\<open>vmispec.IndexNetworkSpecByName\<close>, which are not among the source files, as above:
  "a set keyed by declared name", filled in list order, here as Go maps.
\<close>

definition IndexInterfaceSpecByName_x :: "(string \<Rightarrow> nat) \<Rightarrow> Interface list \<Rightarrow> (string, Interface) gomap" where
  "IndexInterfaceSpecByName_x hash interfaces =
     foldl (\<lambda>ifacesByName ifaceSpec. mapassign hash ifacesByName (Interface.Name ifaceSpec) ifaceSpec) [] interfaces"

definition IndexNetworkSpecByName_x :: "(string \<Rightarrow> nat) \<Rightarrow> Network list \<Rightarrow> (string, Network) gomap" where
  "IndexNetworkSpecByName_x hash networks =
     foldl (\<lambda>indexedNetworks network. mapassign hash indexedNetworks (Network.Name network) network) [] networks"

text \<open>
  The five checks and the four sub-checks, statement by statement. A composite literal
  evaluates its fields in order, so the path of \<^verbatim>\<open>Message\<close> is built before the path
  of \<^verbatim>\<open>Field\<close>. The spec is read through the pointer at the start of the call.
\<close>

fun validateNetworksAssignedToInterfaces_loop_x ::
  "nat option \<Rightarrow> (string, Interface) gomap \<Rightarrow> int \<Rightarrow> Network list \<Rightarrow> StatusCause list \<Rightarrow> StatusCause list exec" where
  "validateNetworksAssignedToInterfaces_loop_x field interfaceSet i [] causes = returnx causes"
| "validateNetworksAssignedToInterfaces_loop_x field interfaceSet i (network # rest) causes =
     (if mapaccess interfaceSet (Network.Name network) = None then
        bindx (networkNamePath_x field i) (\<lambda>msgPath.
        bindx (networkNamePath_x field i) (\<lambda>fieldPath.
          validateNetworksAssignedToInterfaces_loop_x field interfaceSet (i + 1) rest
            (causes @ [\<lparr>Type = CauseTypeFieldValueRequired,
                         Message = msgPath @ '' '' @ [CHR 0x27] @ Network.Name network @ ''' not found.'',
                         Field = fieldPath\<rparr>])))
      else validateNetworksAssignedToInterfaces_loop_x field interfaceSet (i + 1) rest causes)"

definition validateNetworksAssignedToInterfaces_x ::
  "(string \<Rightarrow> nat) \<Rightarrow> nat option \<Rightarrow> StatusCause list exec" where
  "validateNetworksAssignedToInterfaces_x hash field =
     (\<lambda>st. let interfaceSet = IndexInterfaceSpecByName_x hash
                                (Interfaces (Devices (VirtualMachineInstanceSpec.Domain (vmiSpec st))))
           in validateNetworksAssignedToInterfaces_loop_x field interfaceSet 0 (Networks (vmiSpec st)) [] st)"

fun validateInterfacesAssignedToNetworks_loop_x ::
  "nat option \<Rightarrow> (string, Network) gomap \<Rightarrow> int \<Rightarrow> Interface list \<Rightarrow> StatusCause list \<Rightarrow> StatusCause list exec" where
  "validateInterfacesAssignedToNetworks_loop_x field networkSet idx [] causes = returnx causes"
| "validateInterfacesAssignedToNetworks_loop_x field networkSet idx (iface # rest) causes =
     (if mapaccess networkSet (Interface.Name iface) = None then
        bindx (interfaceFieldPath_x field idx ''name'') (\<lambda>msgPath.
        bindx (interfaceFieldPath_x field idx ''name'') (\<lambda>fieldPath.
          validateInterfacesAssignedToNetworks_loop_x field networkSet (idx + 1) rest
            (causes @ [\<lparr>Type = CauseTypeFieldValueInvalid,
                         Message = msgPath @ '' '' @ [CHR 0x27] @ Interface.Name iface @ ''' not found.'',
                         Field = fieldPath\<rparr>])))
      else validateInterfacesAssignedToNetworks_loop_x field networkSet (idx + 1) rest causes)"

definition validateInterfacesAssignedToNetworks_x ::
  "(string \<Rightarrow> nat) \<Rightarrow> nat option \<Rightarrow> StatusCause list exec" where
  "validateInterfacesAssignedToNetworks_x hash field =
     (\<lambda>st. let networkSet = IndexNetworkSpecByName_x hash (Networks (vmiSpec st))
           in validateInterfacesAssignedToNetworks_loop_x field networkSet 0
                (Interfaces (Devices (VirtualMachineInstanceSpec.Domain (vmiSpec st)))) [] st)"

fun validateNetworkNameUnique_loop_x ::
  "(string \<Rightarrow> nat) \<Rightarrow> (nat \<Rightarrow> bool) \<Rightarrow> nat option \<Rightarrow> (string, unit) gomap \<Rightarrow> int \<Rightarrow> Network list
   \<Rightarrow> StatusCause list \<Rightarrow> StatusCause list exec" where
  "validateNetworkNameUnique_loop_x hash tables field networkSet i [] causes = returnx causes"
| "validateNetworkNameUnique_loop_x hash tables field networkSet i (network # rest) causes =
     (if mapaccess networkSet (Network.Name network) \<noteq> None then
        bindx (liftp (Quote_p tables (Network.Name network))) (\<lambda>quoted.
        bindx (networkNamePath_x field i) (\<lambda>fieldPath.
          validateNetworkNameUnique_loop_x hash tables field
            (mapassign hash networkSet (Network.Name network) ()) (i + 1) rest
            (causes @ [\<lparr>Type = CauseTypeFieldValueDuplicate,
                         Message = ''Network with name '' @ quoted
                                   @ '' already exists, every network must have a unique name'',
                         Field = fieldPath\<rparr>])))
      else validateNetworkNameUnique_loop_x hash tables field
             (mapassign hash networkSet (Network.Name network) ()) (i + 1) rest causes)"

definition validateNetworkNameUnique_x ::
  "(string \<Rightarrow> nat) \<Rightarrow> (nat \<Rightarrow> bool) \<Rightarrow> nat option \<Rightarrow> StatusCause list exec" where
  "validateNetworkNameUnique_x hash tables field =
     (\<lambda>st. validateNetworkNameUnique_loop_x hash tables field [] 0 (Networks (vmiSpec st)) [] st)"

fun validateInterfaceNameUnique_loop_x ::
  "(string \<Rightarrow> nat) \<Rightarrow> nat option \<Rightarrow> (string, unit) gomap \<Rightarrow> int \<Rightarrow> Interface list
   \<Rightarrow> StatusCause list \<Rightarrow> StatusCause list exec" where
  "validateInterfaceNameUnique_loop_x hash field ifaceSet idx [] causes = returnx causes"
| "validateInterfaceNameUnique_loop_x hash field ifaceSet idx (iface # rest) causes =
     (if mapaccess ifaceSet (Interface.Name iface) \<noteq> None then
        bindx (interfaceFieldPath_x field idx ''name'') (\<lambda>fieldPath.
          validateInterfaceNameUnique_loop_x hash field
            (mapassign hash ifaceSet (Interface.Name iface) ()) (idx + 1) rest
            (causes @ [\<lparr>Type = CauseTypeFieldValueDuplicate,
                         Message = ''Only one interface can be connected to one specific network'',
                         Field = fieldPath\<rparr>]))
      else validateInterfaceNameUnique_loop_x hash field
             (mapassign hash ifaceSet (Interface.Name iface) ()) (idx + 1) rest causes)"

definition validateInterfaceNameUnique_x ::
  "(string \<Rightarrow> nat) \<Rightarrow> nat option \<Rightarrow> StatusCause list exec" where
  "validateInterfaceNameUnique_x hash field =
     (\<lambda>st. validateInterfaceNameUnique_loop_x hash field [] 0
             (Interfaces (Devices (VirtualMachineInstanceSpec.Domain (vmiSpec st)))) [] st)"

definition validateInterfaceNameFormat_x :: "nat option \<Rightarrow> int \<Rightarrow> Interface \<Rightarrow> StatusCause list exec" where
  "validateInterfaceNameFormat_x field idx iface =
     (if \<not> isValid (Interface.Name iface) then
        bindx (interfaceFieldPath_x field idx ''name'') (\<lambda>fieldPath.
          returnx [\<lparr>Type = CauseTypeFieldValueInvalid,
                    Message = ''Network interface name can only contain alphabetical characters, numbers, dashes (-) or underscores (_)'',
                    Field = fieldPath\<rparr>])
      else returnx [])"

text \<open>The package-level map \<^verbatim>\<open>validInterfaceModels\<close>, filled from its literal.\<close>

definition validInterfaceModels_x :: "(string \<Rightarrow> nat) \<Rightarrow> (string, unit) gomap" where
  "validInterfaceModels_x hash =
     foldl (\<lambda>m (k, v). mapassign hash m k v) []
       [(''e1000'', ()), (''e1000e'', ()), (''ne2k_pci'', ()), (''pcnet'', ()),
        (''rtl8139'', ()), (VirtIO, ())]"

definition validateInterfaceModel_x ::
  "(string \<Rightarrow> nat) \<Rightarrow> nat option \<Rightarrow> int \<Rightarrow> Interface \<Rightarrow> StatusCause list exec" where
  "validateInterfaceModel_x hash field idx iface =
     (if Model iface \<noteq> [] then
        (if mapaccess (validInterfaceModels_x hash) (Model iface) = None then
           bindx (interfaceFieldPath_x field idx ''name'') (\<lambda>namePath.
           bindx (interfaceFieldPath_x field idx ''model'') (\<lambda>fieldPath.
             returnx [\<lparr>Type = CauseTypeFieldValueNotSupported,
                       Message = ''interface '' @ namePath @ '' uses model ''
                                 @ Model iface @ '' that is not supported.'',
                       Field = fieldPath\<rparr>]))
         else returnx [])
      else returnx [])"

definition validateMacAddress_x :: "nat option \<Rightarrow> int \<Rightarrow> Interface \<Rightarrow> StatusCause list exec" where
  "validateMacAddress_x field idx iface =
     (if MacAddress iface \<noteq> [] then
        bindx (liftp (ParseMAC (MacAddress iface))) (\<lambda>(mac, err).
        bindx (if err \<noteq> None then
                 bindx (interfaceFieldPath_x field idx ''name'') (\<lambda>namePath.
                 bindx (interfaceFieldPath_x field idx ''macAddress'') (\<lambda>fieldPath.
                   returnx ([] @ [\<lparr>Type = CauseTypeFieldValueInvalid,
                                    Message = ''interface '' @ namePath
                                              @ '' has malformed MAC address ('' @ MacAddress iface @ '').'',
                                    Field = fieldPath\<rparr>])))
               else returnx []) (\<lambda>causes.
        if length mac > macLen then
          bindx (interfaceFieldPath_x field idx ''name'') (\<lambda>namePath.
          bindx (interfaceFieldPath_x field idx ''macAddress'') (\<lambda>fieldPath.
            returnx (causes @ [\<lparr>Type = CauseTypeFieldValueInvalid,
                                 Message = ''interface '' @ namePath
                                           @ '' has MAC address ('' @ MacAddress iface @ '') that is too long.'',
                                 Field = fieldPath\<rparr>])))
        else returnx causes))
      else returnx [])"

definition validatePciAddress_x :: "nat option \<Rightarrow> int \<Rightarrow> Interface \<Rightarrow> StatusCause list exec" where
  "validatePciAddress_x field idx iface =
     (if PciAddress iface \<noteq> [] then
        (if ParsePciAddress (PciAddress iface) \<noteq> None then
           bindx (interfaceFieldPath_x field idx ''name'') (\<lambda>namePath.
           bindx (interfaceFieldPath_x field idx ''pciAddress'') (\<lambda>fieldPath.
             returnx [\<lparr>Type = CauseTypeFieldValueInvalid,
                       Message = ''interface '' @ namePath
                                 @ '' has malformed PCI address ('' @ PciAddress iface @ '').'',
                       Field = fieldPath\<rparr>]))
         else returnx [])
      else returnx [])"

fun validateInterfacesFields_loop_x ::
  "(string \<Rightarrow> nat) \<Rightarrow> nat option \<Rightarrow> int \<Rightarrow> Interface list \<Rightarrow> StatusCause list \<Rightarrow> StatusCause list exec" where
  "validateInterfacesFields_loop_x hash field idx [] causes = returnx causes"
| "validateInterfacesFields_loop_x hash field idx (iface # rest) causes =
     bindx (validateInterfaceNameFormat_x field idx iface) (\<lambda>nameCauses.
     bindx (validateInterfaceModel_x hash field idx iface) (\<lambda>modelCauses.
     bindx (validateMacAddress_x field idx iface) (\<lambda>macCauses.
     bindx (validatePciAddress_x field idx iface) (\<lambda>pciCauses.
       validateInterfacesFields_loop_x hash field (idx + 1) rest
         ((((causes @ nameCauses) @ modelCauses) @ macCauses) @ pciCauses)))))"

definition validateInterfacesFields_x ::
  "(string \<Rightarrow> nat) \<Rightarrow> nat option \<Rightarrow> StatusCause list exec" where
  "validateInterfacesFields_x hash field =
     (\<lambda>st. validateInterfacesFields_loop_x hash field 0
             (Interfaces (Devices (VirtualMachineInstanceSpec.Domain (vmiSpec st)))) [] st)"

section \<open>Notions used in the statements\<close>

text \<open>The text a path contributes in front of a child: nothing for the nil path,
  otherwise its own text and a dot.\<close>

definition pathPrefix :: "Path \<Rightarrow> string" where
  "pathPrefix field = (if field = NilPath then [] else String field @ ''.'')"

text \<open>The texts of \<^verbatim>\<open>networks[i].name\<close> and of
  \<^verbatim>\<open>domain.devices.interfaces[i].<leaf>\<close> under a prefix.\<close>

definition networksName :: "Path \<Rightarrow> int \<Rightarrow> string" where
  "networksName field i = pathPrefix field @ ''networks['' @ Itoa i @ ''].name''"

definition interfacesLeaf :: "Path \<Rightarrow> int \<Rightarrow> string \<Rightarrow> string" where
  "interfacesLeaf field i leaf =
     pathPrefix field @ ''domain.devices.interfaces['' @ Itoa i @ ''].'' @ leaf"

text \<open>Constructors for the concrete inputs of the examples.\<close>

definition mkNetwork :: "string \<Rightarrow> Network" where
  "mkNetwork nm = \<lparr>Network.Name = nm\<rparr>"

definition mkInterface :: "string \<Rightarrow> string \<Rightarrow> string \<Rightarrow> string \<Rightarrow> Interface" where
  "mkInterface nm mdl mac pci = \<lparr>Interface.Name = nm, Model = mdl, MacAddress = mac, PciAddress = pci\<rparr>"

definition mkSpec :: "Network list \<Rightarrow> Interface list \<Rightarrow> VirtualMachineInstanceSpec" where
  "mkSpec networks interfaces =
     \<lparr>Domain = \<lparr>Devices = \<lparr>Interfaces = interfaces\<rparr>\<rparr>, Networks = networks\<rparr>"

text \<open>A printable ASCII character other than the double quote and the backslash:
  \<^verbatim>\<open>strconv.Quote\<close> copies it as it is.\<close>

definition plainChar :: "char \<Rightarrow> bool" where
  "plainChar c = ((0x20 :: nat) \<le> of_char c \<and> (of_char c :: nat) \<le> 0x7E \<and> c \<noteq> CHR 0x22 \<and> c \<noteq> CHR 0x5C)"

text \<open>What one round of the loop of \<^verbatim>\<open>appendQuotedWith\<close> appends.\<close>

definition quotedChunk :: "(nat \<Rightarrow> bool) \<Rightarrow> string \<Rightarrow> string" where
  "quotedChunk tables s =
     (if snd (nextRune s) = 1 \<and> fst (nextRune s) = RuneError
      then [CHR 0x5C, CHR ''x'', lowerhex (of_char (hd s) div 16), lowerhex (of_char (hd s) mod 16)]
      else appendEscapedRune tables (fst (nextRune s)))"

text \<open>The two causes of \<^verbatim>\<open>validateMacAddress\<close>.\<close>

definition malformedMacCause :: "Path \<Rightarrow> int \<Rightarrow> Interface \<Rightarrow> StatusCause" where
  "malformedMacCause field idx iface =
     \<lparr>Type = CauseTypeFieldValueInvalid,
      Message = ''interface '' @ interfacesLeaf field idx ''name''
                @ '' has malformed MAC address ('' @ MacAddress iface @ '').'',
      Field = interfacesLeaf field idx ''macAddress''\<rparr>"

definition tooLongMacCause :: "Path \<Rightarrow> int \<Rightarrow> Interface \<Rightarrow> StatusCause" where
  "tooLongMacCause field idx iface =
     \<lparr>Type = CauseTypeFieldValueInvalid,
      Message = ''interface '' @ interfacesLeaf field idx ''name''
                @ '' has MAC address ('' @ MacAddress iface @ '') that is too long.'',
      Field = interfacesLeaf field idx ''macAddress''\<rparr>"

text \<open>
  The pattern as the spec writes it, \<^verbatim>\<open>^[A-Za-z0-9_-]+$\<close>, as the set of texts it
  matches in full: one or more characters of the class.
\<close>

definition specNameChar :: "char \<Rightarrow> bool" where
  "specNameChar c =
     (inRange (CHR ''A'') (CHR ''Z'') c \<or> inRange (CHR ''a'') (CHR ''z'') c
      \<or> inRange (CHR ''0'') (CHR ''9'') c \<or> c = CHR ''_'' \<or> c = CHR ''-'')"

inductive matchesNamePattern :: "string \<Rightarrow> bool" where
  one: "specNameChar c \<Longrightarrow> matchesNamePattern [c]"
| more: "specNameChar c \<Longrightarrow> matchesNamePattern s \<Longrightarrow> matchesNamePattern (c # s)"

text \<open>The causes of the name, model and PCI-address checks.\<close>

definition nameFormatCause :: "Path \<Rightarrow> int \<Rightarrow> StatusCause" where
  "nameFormatCause field idx =
     \<lparr>Type = CauseTypeFieldValueInvalid,
      Message = ''Network interface name can only contain alphabetical characters, numbers, dashes (-) or underscores (_)'',
      Field = interfacesLeaf field idx ''name''\<rparr>"

definition modelCause :: "Path \<Rightarrow> int \<Rightarrow> Interface \<Rightarrow> StatusCause" where
  "modelCause field idx iface =
     \<lparr>Type = CauseTypeFieldValueNotSupported,
      Message = ''interface '' @ interfacesLeaf field idx ''name'' @ '' uses model ''
                @ Model iface @ '' that is not supported.'',
      Field = interfacesLeaf field idx ''model''\<rparr>"

definition pciCause :: "Path \<Rightarrow> int \<Rightarrow> Interface \<Rightarrow> StatusCause" where
  "pciCause field idx iface =
     \<lparr>Type = CauseTypeFieldValueInvalid,
      Message = ''interface '' @ interfacesLeaf field idx ''name''
                @ '' has malformed PCI address ('' @ PciAddress iface @ '').'',
      Field = interfacesLeaf field idx ''pciAddress''\<rparr>"

text \<open>
  From \<open>st\<close> to \<open>st'\<close> the spec is the same and the heap has only been extended:
  every node of \<open>st\<close> is in \<open>st'\<close> as it was. A call returns from \<open>st\<close> with a value
  and a state that satisfy \<open>Q\<close>, and the state has only grown.
\<close>

definition grows :: "state \<Rightarrow> state \<Rightarrow> bool" where
  "grows st st' = (vmiSpec st' = vmiSpec st \<and> (\<exists>ext. paths st' = paths st @ ext))"

definition returnsWith :: "'a exec \<Rightarrow> state \<Rightarrow> ('a \<Rightarrow> state \<Rightarrow> bool) \<Rightarrow> bool" where
  "returnsWith m st Q = (\<exists>v st'. m st = Returns (v, st') \<and> grows st st' \<and> Q v st')"

section \<open>Field paths and index maps\<close>

lemma networkNamePath_eq: "networkNamePath field i = networksName field i"
  by (cases field)
     (simp_all add: networkNamePath_def Child_def NewPath_def Index_def String_def
        writeElem_def pathPrefix_def networksName_def)

lemma interfaceFieldPath_eq:
  "leaf \<noteq> [] \<Longrightarrow> interfaceFieldPath field i leaf = interfacesLeaf field i leaf"
  by (cases field)
     (simp_all add: interfaceFieldPath_def Child_def NewPath_def Index_def String_def
        writeElem_def pathPrefix_def interfacesLeaf_def)

lemma dom_foldl_upd:
  "dom (foldl (\<lambda>m x. m(key x \<mapsto> x)) m0 xs) = dom m0 \<union> key ` set xs"
  by (induction xs arbitrary: m0) auto

lemma dom_IndexInterfaceSpecByName:
  "dom (IndexInterfaceSpecByName interfaces) = Interface.Name ` set interfaces"
  by (simp add: IndexInterfaceSpecByName_def dom_foldl_upd)

lemma dom_IndexNetworkSpecByName:
  "dom (IndexNetworkSpecByName networks) = Network.Name ` set networks"
  by (simp add: IndexNetworkSpecByName_def dom_foldl_upd)

lemma validateNetworksAssignedToInterfaces_loop_eq:
  "validateNetworksAssignedToInterfaces_loop field m (int n) nets causes =
     causes @ map (\<lambda>(i, network).
                \<lparr>Type = CauseTypeFieldValueRequired,
                 Message = networksName field (int i) @ '' '' @ [CHR 0x27] @ Network.Name network @ ''' not found.'',
                 Field = networksName field (int i)\<rparr>)
       (filter (\<lambda>(i, network). Network.Name network \<notin> dom m) (enumerate n nets))"
proof (induction nets arbitrary: n causes)
  case Nil
  then show ?case by simp
next
  case (Cons network rest)
  have s: "int n + 1 = int (Suc n)" by simp
  show ?case
    unfolding validateNetworksAssignedToInterfaces_loop.simps s Cons.IH
    by (auto simp: domIff networkNamePath_eq)
qed

lemma validateInterfacesAssignedToNetworks_loop_eq:
  "validateInterfacesAssignedToNetworks_loop field m (int n) ifaces causes =
     causes @ map (\<lambda>(i, iface).
                \<lparr>Type = CauseTypeFieldValueInvalid,
                 Message = interfacesLeaf field (int i) ''name'' @ '' '' @ [CHR 0x27] @ Interface.Name iface @ ''' not found.'',
                 Field = interfacesLeaf field (int i) ''name''\<rparr>)
       (filter (\<lambda>(i, iface). Interface.Name iface \<notin> dom m) (enumerate n ifaces))"
proof (induction ifaces arbitrary: n causes)
  case Nil
  then show ?case by simp
next
  case (Cons iface rest)
  have s: "int n + 1 = int (Suc n)" by simp
  show ?case
    unfolding validateInterfacesAssignedToNetworks_loop.simps s Cons.IH
    by (auto simp: domIff interfaceFieldPath_eq)
qed

lemma filter_enumerate_empty:
  "(\<forall>x\<in>set xs. \<not> P x) \<Longrightarrow> filter (\<lambda>(i, x). P x) (enumerate n xs) = []"
  by (auto simp: filter_empty_conv in_set_enumerate_eq)

section \<open>Cross-reference checks: what they return\<close>

text \<open>
  C1. For every field-path prefix and every spec,
  \<^verbatim>\<open>validateNetworksAssignedToInterfaces\<close> returns, in the order of the network list,
  exactly one cause per network whose name is not the name of an interface: of type
  Required, with the field path \<^verbatim>\<open>networks[i].name\<close> under the prefix and the message
  \<^verbatim>\<open><that path> '<name>' not found.\<close>; \<^verbatim>\<open>validateInterfacesAssignedToNetworks\<close>
  returns, in the order of the interface list, exactly one cause of type Invalid per
  interface whose name is not the name of a network. When every network name is an
  interface name and every interface name is a network name, both return the empty list.
\<close>

theorem cross_reference_checks:
  "(let interfaces = Interfaces (Devices (VirtualMachineInstanceSpec.Domain spec));
        networks = Networks spec
    in validateNetworksAssignedToInterfaces field spec =
         map (\<lambda>(i, network).
                \<lparr>Type = CauseTypeFieldValueRequired,
                 Message = networksName field (int i) @ '' '' @ [CHR 0x27] @ Network.Name network @ ''' not found.'',
                 Field = networksName field (int i)\<rparr>)
           (filter (\<lambda>(i, network). Network.Name network \<notin> Interface.Name ` set interfaces)
              (enumerate 0 networks))
       \<and> validateInterfacesAssignedToNetworks field spec =
         map (\<lambda>(i, iface).
                \<lparr>Type = CauseTypeFieldValueInvalid,
                 Message = interfacesLeaf field (int i) ''name'' @ '' '' @ [CHR 0x27] @ Interface.Name iface @ ''' not found.'',
                 Field = interfacesLeaf field (int i) ''name''\<rparr>)
           (filter (\<lambda>(i, iface). Interface.Name iface \<notin> Network.Name ` set networks)
              (enumerate 0 interfaces))
       \<and> ((\<forall>network\<in>set networks. Network.Name network \<in> Interface.Name ` set interfaces)
            \<and> (\<forall>iface\<in>set interfaces. Interface.Name iface \<in> Network.Name ` set networks)
          \<longrightarrow> validateNetworksAssignedToInterfaces field spec = []
              \<and> validateInterfacesAssignedToNetworks field spec = []))"
proof -
  define interfaces where "interfaces = Interfaces (Devices (VirtualMachineInstanceSpec.Domain spec))"
  define networks where "networks = Networks spec"
  have n: "validateNetworksAssignedToInterfaces field spec =
         map (\<lambda>(i, network).
                \<lparr>Type = CauseTypeFieldValueRequired,
                 Message = networksName field (int i) @ '' '' @ [CHR 0x27] @ Network.Name network @ ''' not found.'',
                 Field = networksName field (int i)\<rparr>)
           (filter (\<lambda>(i, network). Network.Name network \<notin> Interface.Name ` set interfaces)
              (enumerate 0 networks))"
    using validateNetworksAssignedToInterfaces_loop_eq [of field _ 0]
    by (simp add: validateNetworksAssignedToInterfaces_def dom_IndexInterfaceSpecByName
        interfaces_def networks_def)
  have i: "validateInterfacesAssignedToNetworks field spec =
         map (\<lambda>(i, iface).
                \<lparr>Type = CauseTypeFieldValueInvalid,
                 Message = interfacesLeaf field (int i) ''name'' @ '' '' @ [CHR 0x27] @ Interface.Name iface @ ''' not found.'',
                 Field = interfacesLeaf field (int i) ''name''\<rparr>)
           (filter (\<lambda>(i, iface). Interface.Name iface \<notin> Network.Name ` set networks)
              (enumerate 0 interfaces))"
    using validateInterfacesAssignedToNetworks_loop_eq [of field _ 0]
    by (simp add: validateInterfacesAssignedToNetworks_def dom_IndexNetworkSpecByName
        interfaces_def networks_def)
  have e: "validateNetworksAssignedToInterfaces field spec = []
              \<and> validateInterfacesAssignedToNetworks field spec = []"
    if "\<forall>network\<in>set networks. Network.Name network \<in> Interface.Name ` set interfaces"
      and "\<forall>iface\<in>set interfaces. Interface.Name iface \<in> Network.Name ` set networks"
    unfolding n i using that by (simp add: filter_enumerate_empty)
  show ?thesis
    unfolding Let_def interfaces_def [symmetric] networks_def [symmetric]
    using n i e by blast
qed

theorem cross_reference_checks_witness:
  "validateNetworksAssignedToInterfaces NilPath
     (mkSpec [mkNetwork ''net1''] [mkInterface ''net1'' [] [] [], mkInterface ''net1'' [] [] []]) = []
   \<and> validateInterfacesAssignedToNetworks NilPath
     (mkSpec [mkNetwork ''net1''] [mkInterface ''net1'' [] [] [], mkInterface ''net1'' [] [] []]) = []
   \<and> validateNetworksAssignedToInterfaces NilPath
     (mkSpec [mkNetwork ''net1'', mkNetwork ''net2''] [mkInterface ''net1'' [] [] [], mkInterface ''eth9'' [] [] []])
     = [\<lparr>Type = CauseTypeFieldValueRequired,
         Message = ''networks[1].name 'net2' not found.'',
         Field = ''networks[1].name''\<rparr>]
   \<and> validateInterfacesAssignedToNetworks NilPath
     (mkSpec [mkNetwork ''net1'', mkNetwork ''net2''] [mkInterface ''net1'' [] [] [], mkInterface ''eth9'' [] [] []])
     = [\<lparr>Type = CauseTypeFieldValueInvalid,
         Message = ''domain.devices.interfaces[1].name 'eth9' not found.'',
         Field = ''domain.devices.interfaces[1].name''\<rparr>]"
proof -
  have p1: "networksName NilPath 1 = ''networks[1].name''"
    by code_simp
  have p2: "interfacesLeaf NilPath 1 ''name'' = ''domain.devices.interfaces[1].name''"
    by code_simp
  show ?thesis
    using cross_reference_checks [of "mkSpec [mkNetwork ''net1''] [mkInterface ''net1'' [] [] [], mkInterface ''net1'' [] [] []]" NilPath]
      cross_reference_checks [of "mkSpec [mkNetwork ''net1'', mkNetwork ''net2''] [mkInterface ''net1'' [] [] [], mkInterface ''eth9'' [] [] []]" NilPath]
    by (simp add: Let_def enumerate_eq_zip p1 p2 mkSpec_def mkNetwork_def mkInterface_def)
qed

section \<open>Uniqueness checks: what they return\<close>

lemma seen_filter_step:
  "filter (\<lambda>(i, x). key x \<in> dom (seen(key y \<mapsto> u)) \<union> key ` set (take (i - Suc n) rest)) (enumerate (Suc n) rest)
   = filter (\<lambda>(i, x). key x \<in> dom seen \<union> key ` set (take (i - n) (y # rest))) (enumerate (Suc n) rest)"
proof (rule filter_cong [OF refl])
  fix p assume "p \<in> set (enumerate (Suc n) rest)"
  then have "Suc n \<le> fst p"
    by (simp add: in_set_enumerate_eq)
  then have "fst p - n = Suc (fst p - Suc n)" by simp
  then show "(case p of (i, x) \<Rightarrow> key x \<in> dom (seen(key y \<mapsto> u)) \<union> key ` set (take (i - Suc n) rest))
    = (case p of (i, x) \<Rightarrow> key x \<in> dom seen \<union> key ` set (take (i - n) (y # rest)))"
    by (cases p) auto
qed

lemma validateNetworkNameUnique_loop_eq:
  "validateNetworkNameUnique_loop tables field seen (int n) nets causes =
     causes @ map (\<lambda>(i, network).
                \<lparr>Type = CauseTypeFieldValueDuplicate,
                 Message = ''Network with name '' @ Quote tables (Network.Name network)
                           @ '' already exists, every network must have a unique name'',
                 Field = networksName field (int i)\<rparr>)
       (filter (\<lambda>(i, network). Network.Name network \<in> dom seen \<union> Network.Name ` set (take (i - n) nets))
          (enumerate n nets))"
proof (induction nets arbitrary: n seen causes)
  case Nil
  then show ?case by simp
next
  case (Cons network rest)
  have s: "int n + 1 = int (Suc n)" by simp
  show ?case
    unfolding validateNetworkNameUnique_loop.simps s Cons.IH
      seen_filter_step [of Network.Name seen network]
    by (simp add: domIff networkNamePath_eq)
qed

lemma validateInterfaceNameUnique_loop_eq:
  "validateInterfaceNameUnique_loop field seen (int n) ifaces causes =
     causes @ map (\<lambda>(i, iface).
                \<lparr>Type = CauseTypeFieldValueDuplicate,
                 Message = ''Only one interface can be connected to one specific network'',
                 Field = interfacesLeaf field (int i) ''name''\<rparr>)
       (filter (\<lambda>(i, iface). Interface.Name iface \<in> dom seen \<union> Interface.Name ` set (take (i - n) ifaces))
          (enumerate n ifaces))"
proof (induction ifaces arbitrary: n seen causes)
  case Nil
  then show ?case by simp
next
  case (Cons iface rest)
  have s: "int n + 1 = int (Suc n)" by simp
  show ?case
    unfolding validateInterfaceNameUnique_loop.simps s Cons.IH
      seen_filter_step [of Interface.Name seen iface]
    by (simp add: domIff interfaceFieldPath_eq)
qed

lemma repeats_count:
  "length (filter (\<lambda>(i, x). key x = k \<and> key x \<in> key ` set (take i xs)) (enumerate 0 xs))
     = count_list (map key xs) k - 1"
proof (induction xs rule: rev_induct)
  case Nil
  then show ?case by simp
next
  case (snoc y ys)
  have old: "filter (\<lambda>(i, x). key x = k \<and> key x \<in> key ` set (take i (ys @ [y]))) (enumerate 0 ys)
     = filter (\<lambda>(i, x). key x = k \<and> key x \<in> key ` set (take i ys)) (enumerate 0 ys)"
    by (rule filter_cong [OF refl]) (auto simp: in_set_enumerate_eq)
  have pos: "0 < count_list (map key ys) k" if "k \<in> key ` set ys"
    using that count_list_0_iff [of "map key ys" k] by auto
  have e: "enumerate 0 (ys @ [y]) = enumerate 0 ys @ [(length ys, y)]"
    by (simp add: enumerate_append_eq)
  show ?case
    unfolding e filter_append length_append old snoc.IH
    using pos by (auto simp: count_list_0_iff)
qed

lemma appendQuotedWith_loop_Nil [simp]: "appendQuotedWith_loop tables buf [] = buf"
  by (subst appendQuotedWith_loop.simps) simp

lemma appendQuotedWith_loop_step:
  "s \<noteq> [] \<Longrightarrow> appendQuotedWith_loop tables buf s =
     appendQuotedWith_loop tables (buf @ quotedChunk tables s) (drop (snd (nextRune s)) s)"
  by (subst appendQuotedWith_loop.simps) (simp add: Let_def quotedChunk_def)

lemma appendQuotedWith_loop_buf:
  "appendQuotedWith_loop tables buf s = buf @ appendQuotedWith_loop tables [] s"
proof (induction "length s" arbitrary: s buf rule: less_induct)
  case less
  show ?case
  proof (cases "s = []")
    case True
    then show ?thesis by simp
  next
    case False
    then have "length (drop (snd (nextRune s)) s) < length s"
      using nextRune_width [of s] by simp
    note IH = less.hyps [OF this]
    have "appendQuotedWith_loop tables buf s =
        (buf @ quotedChunk tables s) @ appendQuotedWith_loop tables [] (drop (snd (nextRune s)) s)"
      unfolding appendQuotedWith_loop_step [OF False, of tables buf] by (rule IH)
    moreover have "appendQuotedWith_loop tables [] s =
        quotedChunk tables s @ appendQuotedWith_loop tables [] (drop (snd (nextRune s)) s)"
      unfolding appendQuotedWith_loop_step [OF False, of tables "[]"] append_Nil by (rule IH)
    ultimately show ?thesis by simp
  qed
qed

lemma Quote_delimited: "\<exists>body. Quote tables s = [CHR 0x22] @ body @ [CHR 0x22]"
  unfolding Quote_def by (subst appendQuotedWith_loop_buf) simp

lemma appendQuotedWith_loop_plain:
  "list_all plainChar s \<Longrightarrow> appendQuotedWith_loop tables buf s = buf @ s"
proof (induction s arbitrary: buf)
  case Nil
  then show ?case by simp
next
  case (Cons c cs)
  from Cons.prems have pc: "plainChar c" and cs: "list_all plainChar cs"
    by simp_all
  from pc have c: "(0x20 :: nat) \<le> of_char c" "(of_char c :: nat) \<le> 0x7E" "c \<noteq> CHR 0x22" "c \<noteq> CHR 0x5C"
    by (simp_all add: plainChar_def)
  have "(of_char c :: nat) \<noteq> of_char (CHR 0x22)" "(of_char c :: nat) \<noteq> of_char (CHR 0x5C)"
    using c(3,4) by (simp_all only: of_char_eq_iff not_False_eq_True)
  then have q: "(of_char c :: nat) \<noteq> 0x22" "(of_char c :: nat) \<noteq> 0x5C"
    by simp_all
  have n: "nextRune (c # cs) = (of_char c, 1)"
    using c by (simp add: nextRune_def)
  have e: "appendEscapedRune tables (of_char c) = [c]"
    using c q by (simp add: appendEscapedRune_def IsPrint_def AppendRune_def)
  have r: "(of_char c :: nat) \<noteq> RuneError"
    using c by (simp add: RuneError_def)
  show ?case
    by (subst appendQuotedWith_loop.simps) (simp add: n e r Let_def Cons.IH [OF cs])
qed

lemma Quote_plain: "list_all plainChar s \<Longrightarrow> Quote tables s = [CHR 0x22] @ s @ [CHR 0x22]"
  by (simp add: Quote_def appendQuotedWith_loop_plain)

text \<open>
  C2, as the code has it. For every field-path prefix and every spec,
  \<^verbatim>\<open>validateNetworkNameUnique\<close> returns, in the order of the network list, exactly one
  cause of type Duplicate per network whose name occurs earlier in the list, with the
  field path \<^verbatim>\<open>networks[i].name\<close> of that occurrence; so a name that occurs \<open>k\<close> times
  gets \<open>k - 1\<close> causes. The message is
  \<^verbatim>\<open>Network with name <q> already exists, every network must have a unique name\<close>
  where \<^verbatim>\<open><q>\<close> is the name as the verb \<^verbatim>\<open>%q\<close> writes it: between double quotes, with
  Go's escapes; a name of printable ASCII characters other than the double quote and
  the backslash stands between the double quotes unchanged.
  \<^verbatim>\<open>validateInterfaceNameUnique\<close> does the same on the interface list, with the message
  \<^verbatim>\<open>Only one interface can be connected to one specific network\<close> and the field path
  \<^verbatim>\<open>domain.devices.interfaces[i].name\<close> of the repeated interface.
\<close>

theorem uniqueness_checks:
  "(let interfaces = Interfaces (Devices (VirtualMachineInstanceSpec.Domain spec));
        networks = Networks spec
    in validateNetworkNameUnique tables field spec =
         map (\<lambda>(i, network).
                \<lparr>Type = CauseTypeFieldValueDuplicate,
                 Message = ''Network with name '' @ Quote tables (Network.Name network)
                           @ '' already exists, every network must have a unique name'',
                 Field = networksName field (int i)\<rparr>)
           (filter (\<lambda>(i, network). Network.Name network \<in> Network.Name ` set (take i networks))
              (enumerate 0 networks))
       \<and> validateInterfaceNameUnique field spec =
         map (\<lambda>(i, iface).
                \<lparr>Type = CauseTypeFieldValueDuplicate,
                 Message = ''Only one interface can be connected to one specific network'',
                 Field = interfacesLeaf field (int i) ''name''\<rparr>)
           (filter (\<lambda>(i, iface). Interface.Name iface \<in> Interface.Name ` set (take i interfaces))
              (enumerate 0 interfaces))
       \<and> (\<forall>nm. length (filter (\<lambda>(i, network). Network.Name network = nm
                                  \<and> Network.Name network \<in> Network.Name ` set (take i networks))
                          (enumerate 0 networks))
                 = count_list (map Network.Name networks) nm - 1)
       \<and> (\<forall>nm. length (filter (\<lambda>(i, iface). Interface.Name iface = nm
                                  \<and> Interface.Name iface \<in> Interface.Name ` set (take i interfaces))
                          (enumerate 0 interfaces))
                 = count_list (map Interface.Name interfaces) nm - 1)
       \<and> (\<forall>nm. \<exists>body. Quote tables nm = [CHR 0x22] @ body @ [CHR 0x22])
       \<and> (\<forall>nm. list_all plainChar nm \<longrightarrow> Quote tables nm = [CHR 0x22] @ nm @ [CHR 0x22]))"
proof -
  define interfaces where "interfaces = Interfaces (Devices (VirtualMachineInstanceSpec.Domain spec))"
  define networks where "networks = Networks spec"
  have n: "validateNetworkNameUnique tables field spec =
         map (\<lambda>(i, network).
                \<lparr>Type = CauseTypeFieldValueDuplicate,
                 Message = ''Network with name '' @ Quote tables (Network.Name network)
                           @ '' already exists, every network must have a unique name'',
                 Field = networksName field (int i)\<rparr>)
           (filter (\<lambda>(i, network). Network.Name network \<in> Network.Name ` set (take i networks))
              (enumerate 0 networks))"
    using validateNetworkNameUnique_loop_eq [of tables field Map.empty 0 networks "[]"]
    by (simp add: validateNetworkNameUnique_def networks_def)
  have i: "validateInterfaceNameUnique field spec =
         map (\<lambda>(i, iface).
                \<lparr>Type = CauseTypeFieldValueDuplicate,
                 Message = ''Only one interface can be connected to one specific network'',
                 Field = interfacesLeaf field (int i) ''name''\<rparr>)
           (filter (\<lambda>(i, iface). Interface.Name iface \<in> Interface.Name ` set (take i interfaces))
              (enumerate 0 interfaces))"
    using validateInterfaceNameUnique_loop_eq [of field Map.empty 0 interfaces "[]"]
    by (simp add: validateInterfaceNameUnique_def interfaces_def)
  have q1: "\<forall>nm. \<exists>body. Quote tables nm = [CHR 0x22] @ body @ [CHR 0x22]"
    using Quote_delimited by blast
  have q2: "\<forall>nm. list_all plainChar nm \<longrightarrow> Quote tables nm = [CHR 0x22] @ nm @ [CHR 0x22]"
    using Quote_plain by blast
  show ?thesis
    unfolding Let_def interfaces_def [symmetric] networks_def [symmetric]
    using n i q1 q2 repeats_count [of Network.Name _ networks] repeats_count [of Interface.Name _ interfaces]
    by blast
qed

text \<open>The claim as stated, with the name between single quotes, fails for two networks
  named \<^verbatim>\<open>net1\<close>.\<close>

theorem uniqueness_checks_counterexample:
  "validateNetworkNameUnique (\<lambda>r. False) NilPath (mkSpec [mkNetwork ''net1'', mkNetwork ''net1''] [])
     = [\<lparr>Type = CauseTypeFieldValueDuplicate,
         Message = ''Network with name \"net1\" already exists, every network must have a unique name'',
         Field = ''networks[1].name''\<rparr>]
   \<and> validateNetworkNameUnique (\<lambda>r. False) NilPath (mkSpec [mkNetwork ''net1'', mkNetwork ''net1''] [])
     \<noteq> [\<lparr>Type = CauseTypeFieldValueDuplicate,
         Message = ''Network with name 'net1' already exists, every network must have a unique name'',
         Field = ''networks[1].name''\<rparr>]"
proof -
  have p: "networkNamePath NilPath 1 = ''networks[1].name''"
    by code_simp
  have q: "Quote (\<lambda>r. False) ''net1'' = ''\"net1\"''"
    by (simp add: Quote_plain plainChar_def)
  show ?thesis
    by (simp add: validateNetworkNameUnique_def mkSpec_def mkNetwork_def p q)
qed

theorem uniqueness_checks_witness:
  "validateNetworkNameUnique (\<lambda>r. False) NilPath
     (mkSpec [mkNetwork ''net1'', mkNetwork ''net2'', mkNetwork ''net1'', mkNetwork ''net1'']
        [mkInterface ''eth0'' [] [] [], mkInterface ''eth0'' [] [] []])
     = [\<lparr>Type = CauseTypeFieldValueDuplicate,
         Message = ''Network with name \"net1\" already exists, every network must have a unique name'',
         Field = ''networks[2].name''\<rparr>,
        \<lparr>Type = CauseTypeFieldValueDuplicate,
         Message = ''Network with name \"net1\" already exists, every network must have a unique name'',
         Field = ''networks[3].name''\<rparr>]
   \<and> validateInterfaceNameUnique NilPath
     (mkSpec [mkNetwork ''net1'', mkNetwork ''net2'', mkNetwork ''net1'', mkNetwork ''net1'']
        [mkInterface ''eth0'' [] [] [], mkInterface ''eth0'' [] [] []])
     = [\<lparr>Type = CauseTypeFieldValueDuplicate,
         Message = ''Only one interface can be connected to one specific network'',
         Field = ''domain.devices.interfaces[1].name''\<rparr>]
   \<and> list_all plainChar ''net1''"
proof -
  note t = uniqueness_checks [of "mkSpec [mkNetwork ''net1'', mkNetwork ''net2'', mkNetwork ''net1'', mkNetwork ''net1'']
        [mkInterface ''eth0'' [] [] [], mkInterface ''eth0'' [] [] []]" "\<lambda>r. False" NilPath, unfolded Let_def]
  have pl: "list_all plainChar ''net1''"
    by (simp add: plainChar_def)
  from t have "\<forall>nm. list_all plainChar nm \<longrightarrow> Quote (\<lambda>r. False) nm = [CHR 0x22] @ nm @ [CHR 0x22]"
    by (elim conjE)
  with pl have q: "Quote (\<lambda>r. False) ''net1'' = ''\"net1\"''"
    by simp
  have p: "networksName NilPath 2 = ''networks[2].name''"
    "networksName NilPath 3 = ''networks[3].name''"
    "interfacesLeaf NilPath 1 ''name'' = ''domain.devices.interfaces[1].name''"
    by code_simp+
  from t have n: "validateNetworkNameUnique (\<lambda>r. False) NilPath
     (mkSpec [mkNetwork ''net1'', mkNetwork ''net2'', mkNetwork ''net1'', mkNetwork ''net1'']
        [mkInterface ''eth0'' [] [] [], mkInterface ''eth0'' [] [] []])
     = [\<lparr>Type = CauseTypeFieldValueDuplicate,
         Message = ''Network with name \"net1\" already exists, every network must have a unique name'',
         Field = ''networks[2].name''\<rparr>,
        \<lparr>Type = CauseTypeFieldValueDuplicate,
         Message = ''Network with name \"net1\" already exists, every network must have a unique name'',
         Field = ''networks[3].name''\<rparr>]"
    by (elim conjE) (simp add: mkSpec_def mkNetwork_def mkInterface_def enumerate_eq_zip upt_rec p q)
  from t have i: "validateInterfaceNameUnique NilPath
     (mkSpec [mkNetwork ''net1'', mkNetwork ''net2'', mkNetwork ''net1'', mkNetwork ''net1'']
        [mkInterface ''eth0'' [] [] [], mkInterface ''eth0'' [] [] []])
     = [\<lparr>Type = CauseTypeFieldValueDuplicate,
         Message = ''Only one interface can be connected to one specific network'',
         Field = ''domain.devices.interfaces[1].name''\<rparr>]"
    by (elim conjE) (simp add: mkSpec_def mkNetwork_def mkInterface_def enumerate_eq_zip upt_rec p)
  from n i pl show ?thesis by blast
qed

section \<open>MAC addresses\<close>

subsection \<open>\<^verbatim>\<open>ParseMAC\<close> never panics, and returns an address or an error\<close>

lemma bindp_Inr [simp]: "bindp (Inr v) f = f v"
  by (simp add: bindp_def)

lemma bindp_Inl [simp]: "bindp (Inl p) f = Inl p"
  by (simp add: bindp_def)

lemma xtoi2_digits_Inr: "2 \<le> length s \<Longrightarrow> \<exists>b ok. xtoi2_digits s = Inr (b, ok)"
  by (simp add: xtoi2_digits_def sliceTo_def split: prod.splits)

lemma xtoi2_Inr: "2 \<le> length s \<Longrightarrow> \<exists>b ok. xtoi2 s e = Inr (b, ok)"
  using xtoi2_digits_Inr [of s] by (auto simp: xtoi2_def at_def)

lemma ParseMAC_colons_Inr:
  "length s + 1 = 3 * n \<Longrightarrow> x = 3 * i \<Longrightarrow> i \<le> n \<Longrightarrow> length hw = n \<Longrightarrow> 2 < length s \<Longrightarrow>
   \<exists>r. ParseMAC_colons s n x i hw = Inr r \<and> (\<forall>hw'. r = Some hw' \<longrightarrow> length hw' = n)"
proof (induction "n - i" arbitrary: x i hw)
  case 0
  then have "\<not> i < n" by simp
  then show ?case
    using "0.prems" by (subst ParseMAC_colons.simps) simp
next
  case (Suc k)
  then have lt: "i < n" by simp
  with Suc.prems have x: "x \<le> length s" "2 \<le> length (drop x s)"
    by simp_all
  obtain b ok where b: "xtoi2 (drop x s) (s ! 2) = Inr (b, ok)"
    using xtoi2_Inr [OF x(2)] by blast
  have k: "k = n - (i + 1)" using Suc.hyps(2) by simp
  have IH: "\<exists>r. ParseMAC_colons s n (x + 3) (i + 1) (hw[i := b]) = Inr r \<and> (\<forall>hw'. r = Some hw' \<longrightarrow> length hw' = n)"
    using Suc.prems lt by (intro Suc.hyps(1) [OF k]) simp_all
  show ?case
    using lt x Suc.prems b IH
    by (subst ParseMAC_colons.simps) (simp add: sliceFrom_def at_def store_def)
qed

lemma ParseMAC_dots_Inr:
  "length s + 1 = 5 * m \<Longrightarrow> n = 2 * m \<Longrightarrow> x = 5 * j \<Longrightarrow> i = 2 * j \<Longrightarrow> j \<le> m \<Longrightarrow> length hw = n \<Longrightarrow> 4 < length s \<Longrightarrow>
   \<exists>r. ParseMAC_dots s n x i hw = Inr r \<and> (\<forall>hw'. r = Some hw' \<longrightarrow> length hw' = n)"
proof (induction "m - j" arbitrary: x i j hw)
  case 0
  then have "\<not> i < n" by simp
  then show ?case
    using "0.prems" by (subst ParseMAC_dots.simps) simp
next
  case (Suc k)
  then have lt: "j < m" by simp
  with Suc.prems have i: "i < n" "i + 1 < n" by simp_all
  from lt Suc.prems have x: "x + 2 \<le> length s" "2 \<le> length (drop (x + 2) s)"
    "2 \<le> length (take 2 (drop x s))"
    by simp_all
  obtain b ok where b: "xtoi2 (take 2 (drop x s)) (CHR 0x00) = Inr (b, ok)"
    using xtoi2_Inr [OF x(3)] by blast
  obtain b' ok' where b': "xtoi2 (drop (x + 2) s) (s ! 4) = Inr (b', ok')"
    using xtoi2_Inr [OF x(2)] by blast
  have k: "k = m - (j + 1)" using Suc.hyps(2) by simp
  have IH: "\<exists>r. ParseMAC_dots s n (x + 5) (i + 2) (hw[i := b, i + 1 := b']) = Inr r \<and> (\<forall>hw'. r = Some hw' \<longrightarrow> length hw' = n)"
    using Suc.prems lt by (intro Suc.hyps(1) [OF k, of _ _]) simp_all
  show ?case
    using i x Suc.prems b b' IH
    by (subst ParseMAC_dots.simps) (simp add: slice_def sliceFrom_def at_def store_def)
qed

lemma ParseMAC_plain_Inr:
  "length s = 2 * n \<Longrightarrow> x = 2 * i \<Longrightarrow> i \<le> n \<Longrightarrow> length hw = n \<Longrightarrow>
   \<exists>r. ParseMAC_plain s n x i hw = Inr r \<and> (\<forall>hw'. r = Some hw' \<longrightarrow> length hw' = n)"
proof (induction "n - i" arbitrary: x i hw)
  case 0
  then have "\<not> i < n" by simp
  then show ?case
    using "0.prems" by (subst ParseMAC_plain.simps) simp
next
  case (Suc k)
  then have lt: "i < n" by simp
  with Suc.prems have x: "x + 2 \<le> length s" "2 \<le> length (take 2 (drop x s))"
    by simp_all
  obtain b ok where b: "xtoi2 (take 2 (drop x s)) (CHR 0x00) = Inr (b, ok)"
    using xtoi2_Inr [OF x(2)] by blast
  have k: "k = n - (i + 1)" using Suc.hyps(2) by simp
  have IH: "\<exists>r. ParseMAC_plain s n (x + 2) (i + 1) (hw[i := b]) = Inr r \<and> (\<forall>hw'. r = Some hw' \<longrightarrow> length hw' = n)"
    using Suc.prems lt by (intro Suc.hyps(1) [OF k]) simp_all
  show ?case
    using lt x Suc.prems b IH
    by (subst ParseMAC_plain.simps) (simp add: slice_def store_def)
qed

lemma ParseMAC_result_cases:
  "(\<forall>hw'. r = Some hw' \<longrightarrow> length hw' = n) \<Longrightarrow> n = 6 \<or> n = 8 \<or> n = 20 \<Longrightarrow>
   (\<exists>e. ParseMAC_result s r = Inr ([], Some e))
   \<or> (\<exists>hw. ParseMAC_result s r = Inr (hw, None) \<and> (length hw = 6 \<or> length hw = 8 \<or> length hw = 20))"
  by (cases r) (simp_all add: ParseMAC_result_def invalidMAC_def)

lemma ParseMAC_cases:
  "(\<exists>e. ParseMAC s = Inr ([], Some e))
   \<or> (\<exists>hw. ParseMAC s = Inr (hw, None) \<and> (length hw = 6 \<or> length hw = 8 \<or> length hw = 20))"
proof (cases "length s < 12")
  case True
  then show ?thesis by (simp add: ParseMAC_def invalidMAC_def)
next
  case long: False
  show ?thesis
  proof (cases "s ! 2 = CHR '':'' \<or> s ! 2 = CHR ''-''")
    case True
    show ?thesis
    proof (cases "(length s + 1) mod 3 = 0 \<and> ((length s + 1) div 3 = 6 \<or> (length s + 1) div 3 = 8 \<or> (length s + 1) div 3 = 20)")
      case ok: True
      define n where "n = (length s + 1) div 3"
      from ok have len: "length s + 1 = 3 * n" and n: "n = 6 \<or> n = 8 \<or> n = 20"
        by (auto simp: n_def)
      obtain r where r: "ParseMAC_colons s n 0 0 (replicate n 0) = Inr r"
        and l: "\<forall>hw'. r = Some hw' \<longrightarrow> length hw' = n"
        using ParseMAC_colons_Inr [OF len, of 0 0 "replicate n 0"] long by auto
      have "ParseMAC s = ParseMAC_result s r"
        using long True ok r n by (auto simp: ParseMAC_def at_def n_def Let_def)
      then show ?thesis
        using ParseMAC_result_cases [OF l n] by simp
    next
      case False
      then show ?thesis
        using long True by (auto simp: ParseMAC_def at_def invalidMAC_def Let_def)
    qed
  next
    case nocolon: False
    show ?thesis
    proof (cases "s ! 4 = CHR ''.''")
      case dot: True
      show ?thesis
      proof (cases "(length s + 1) mod 5 = 0
          \<and> (2 * (length s + 1) div 5 = 6 \<or> 2 * (length s + 1) div 5 = 8 \<or> 2 * (length s + 1) div 5 = 20)")
        case ok: True
        define m where "m = (length s + 1) div 5"
        define n where "n = 2 * (length s + 1) div 5"
        from ok have len: "length s + 1 = 5 * m"
          by (auto simp: m_def)
        then have nm: "n = 2 * m"
          by (simp add: n_def)
        from ok have n: "n = 6 \<or> n = 8 \<or> n = 20"
          by (auto simp: n_def)
        obtain r where r: "ParseMAC_dots s n 0 0 (replicate n 0) = Inr r"
          and l: "\<forall>hw'. r = Some hw' \<longrightarrow> length hw' = n"
          using ParseMAC_dots_Inr [OF len nm, of 0 0 0 "replicate n 0"] long by auto
        have "ParseMAC s = ParseMAC_result s r"
          using long nocolon dot ok r n by (auto simp: ParseMAC_def at_def n_def Let_def)
        then show ?thesis
          using ParseMAC_result_cases [OF l n] by simp
      next
        case False
        then show ?thesis
          using long nocolon dot by (auto simp: ParseMAC_def at_def invalidMAC_def Let_def)
      qed
    next
      case nodot: False
      show ?thesis
      proof (cases "length s mod 2 = 0
          \<and> (length s div 2 = 6 \<or> length s div 2 = 8 \<or> length s div 2 = 20)")
        case ok: True
        define n where "n = length s div 2"
        from ok have len: "length s = 2 * n" and n: "n = 6 \<or> n = 8 \<or> n = 20"
          by (auto simp: n_def)
        obtain r where r: "ParseMAC_plain s n 0 0 (replicate n 0) = Inr r"
          and l: "\<forall>hw'. r = Some hw' \<longrightarrow> length hw' = n"
          using ParseMAC_plain_Inr [OF len, of 0 0 "replicate n 0"] by auto
        have "ParseMAC s = ParseMAC_result s r"
          using long nocolon nodot ok r n by (auto simp: ParseMAC_def at_def n_def Let_def)
        then show ?thesis
          using ParseMAC_result_cases [OF l n] by simp
      next
        case False
        then show ?thesis
          using long nocolon nodot by (auto simp: ParseMAC_def at_def invalidMAC_def Let_def)
      qed
    qed
  qed
qed

lemma validateMacAddress_eq:
  "ParseMAC (MacAddress iface) = Inr (hw, err) \<Longrightarrow>
   validateMacAddress field idx iface =
     Inr (if MacAddress iface = [] then []
          else (if err \<noteq> None then [malformedMacCause field idx iface] else [])
               @ (if macLen < length hw then [tooLongMacCause field idx iface] else []))"
  by (simp add: validateMacAddress_def malformedMacCause_def tooLongMacCause_def
      interfaceFieldPath_eq Let_def)

lemma mac_causes_distinct: "malformedMacCause field idx iface \<noteq> tooLongMacCause field idx iface"
  by (simp add: malformedMacCause_def tooLongMacCause_def)

lemma validateMacAddress_empty:
  "MacAddress iface = [] \<Longrightarrow> validateMacAddress field idx iface = Inr []"
  by (simp add: validateMacAddress_def)

lemma validateMacAddress_cases:
  "(MacAddress iface = [] \<and> validateMacAddress field idx iface = Inr [])
   \<or> (MacAddress iface \<noteq> [] \<and> (\<exists>e. ParseMAC (MacAddress iface) = Inr ([], Some e))
       \<and> validateMacAddress field idx iface = Inr [malformedMacCause field idx iface])
   \<or> (MacAddress iface \<noteq> [] \<and> (\<exists>hw. ParseMAC (MacAddress iface) = Inr (hw, None) \<and> length hw = 6)
       \<and> validateMacAddress field idx iface = Inr [])
   \<or> (MacAddress iface \<noteq> [] \<and> (\<exists>hw. ParseMAC (MacAddress iface) = Inr (hw, None) \<and> (length hw = 8 \<or> length hw = 20))
       \<and> validateMacAddress field idx iface = Inr [tooLongMacCause field idx iface])"
proof (cases "MacAddress iface = []")
  case True
  then show ?thesis by (simp add: validateMacAddress_empty)
next
  case False
  consider (err) e where "ParseMAC (MacAddress iface) = Inr ([], Some e)"
    | (ok) hw where "ParseMAC (MacAddress iface) = Inr (hw, None)"
        "length hw = 6 \<or> length hw = 8 \<or> length hw = 20"
    using ParseMAC_cases [of "MacAddress iface"] by blast
  then show ?thesis
  proof cases
    case err
    show ?thesis
      using False err validateMacAddress_eq [OF err, of field idx] by (simp add: macLen_def)
  next
    case ok
    show ?thesis
      using False ok validateMacAddress_eq [OF ok(1), of field idx] by (auto simp: macLen_def)
  qed
qed

lemma replicate_bytes:
  "replicate 6 (0 :: byte) = [0, 0, 0, 0, 0, 0]"
  "replicate 8 (0 :: byte) = [0, 0, 0, 0, 0, 0, 0, 0]"
  "replicate 20 (0 :: byte) = [0, 0, 0, 0, 0, 0, 0, 0, 0, 0, 0, 0, 0, 0, 0, 0, 0, 0, 0, 0]"
  by (simp_all add: numeral_eq_Suc)

lemmas mac_eval = ParseMAC_def ParseMAC_result_def invalidMAC_def ParseMAC_colons.simps ParseMAC_dots.simps
  ParseMAC_plain.simps
  xtoi2_def xtoi2_digits_def xtoi_def hexval_def inRange_def big_def at_def sliceFrom_def sliceTo_def slice_def store_def Let_def
  replicate_bytes


lemma ParseMAC_not_a_mac:
  "ParseMAC ''not-a-mac'' = Inr ([], Some (AddrError ''invalid MAC address'' ''not-a-mac''))"
  by (simp add: mac_eval)

lemma ParseMAC_eui64:
  "ParseMAC ''02:00:5e:10:00:00:00:01'' = Inr ([0x02, 0x00, 0x5e, 0x10, 0x00, 0x00, 0x00, 0x01], None)"
  by (simp add: mac_eval)


lemma ParseMAC_dotted: "ParseMAC ''0000.5e00.5301'' = Inr ([0x00, 0x00, 0x5e, 0x00, 0x53, 0x01], None)"
  by (simp add: mac_eval)


lemma ParseMAC_plain64:
  "ParseMAC ''0123456789abcdef'' = Inr ([0x01, 0x23, 0x45, 0x67, 0x89, 0xab, 0xcd, 0xef], None)"
  by (simp add: mac_eval)



lemma ParseMAC_plain_bad:
  "ParseMAC ''deadbeef000g'' = Inr ([], Some (AddrError ''invalid MAC address'' ''deadbeef000g''))"
  "ParseMAC ''deadbeef000123'' = Inr ([], Some (AddrError ''invalid MAC address'' ''deadbeef000123''))"
  "ParseMAC ''deadbeef001'' = Inr ([], Some (AddrError ''invalid MAC address'' ''deadbeef001''))"
  by (simp_all add: mac_eval)







subsection \<open>The two checks exclude each other\<close>

text \<open>
  C3, as the code has it. \<^verbatim>\<open>validateMacAddress\<close> evaluates the parse-failure check and
  then the length check on every non-empty \<^verbatim>\<open>macAddress\<close>, but the two exclude each
  other: when \<^verbatim>\<open>net.ParseMAC\<close> fails it returns the nil address, whose length 0 is not
  more than 6. So at most one cause is returned: the malformed cause when parsing
  fails, the too-long cause when parsing succeeds with more than 6 bytes, none
  otherwise; no value gets both.
\<close>

theorem mac_checks_exclusive:
  "\<exists>hw err. ParseMAC (MacAddress iface) = Inr (hw, err)
     \<and> (err \<noteq> None \<longrightarrow> hw = [])
     \<and> (MacAddress iface \<noteq> [] \<longrightarrow>
          validateMacAddress field idx iface =
            Inr ((if err \<noteq> None then [malformedMacCause field idx iface] else [])
                 @ (if macLen < length hw then [tooLongMacCause field idx iface] else [])))
     \<and> \<not> (err \<noteq> None \<and> macLen < length hw)
     \<and> (\<forall>cs. validateMacAddress field idx iface = Inr cs \<longrightarrow>
            length cs \<le> 1
            \<and> \<not> (malformedMacCause field idx iface \<in> set cs \<and> tooLongMacCause field idx iface \<in> set cs))"
proof -
  have one: "\<forall>cs. validateMacAddress field idx iface = Inr cs \<longrightarrow>
            length cs \<le> 1
            \<and> \<not> (malformedMacCause field idx iface \<in> set cs \<and> tooLongMacCause field idx iface \<in> set cs)"
    using validateMacAddress_cases [of iface field idx] mac_causes_distinct [of field idx iface]
    by auto
  consider (err) e where "ParseMAC (MacAddress iface) = Inr ([], Some e)"
    | (ok) hw where "ParseMAC (MacAddress iface) = Inr (hw, None)"
    using ParseMAC_cases [of "MacAddress iface"] by blast
  then show ?thesis
  proof cases
    case err
    show ?thesis
      using one validateMacAddress_eq [OF err, of field idx]
      by (intro exI [of _ "[]"] exI [of _ "Some e"]) (simp add: err macLen_def)
  next
    case ok
    show ?thesis
      using one validateMacAddress_eq [OF ok, of field idx]
      by (intro exI [of _ hw] exI [of _ None]) (simp add: ok)
  qed
qed

text \<open>The claim as stated, that some non-empty \<^verbatim>\<open>macAddress\<close> gets both causes, is
  false.\<close>

theorem mac_checks_exclusive_counterexample:
  "\<not> (\<exists>field idx iface cs. MacAddress iface \<noteq> []
        \<and> validateMacAddress field idx iface = Inr cs
        \<and> malformedMacCause field idx iface \<in> set cs
        \<and> tooLongMacCause field idx iface \<in> set cs)"
proof
  assume "\<exists>field idx iface cs. MacAddress iface \<noteq> []
        \<and> validateMacAddress field idx iface = Inr cs
        \<and> malformedMacCause field idx iface \<in> set cs
        \<and> tooLongMacCause field idx iface \<in> set cs"
  then obtain field idx iface cs where v: "validateMacAddress field idx iface = Inr cs"
    and m: "malformedMacCause field idx iface \<in> set cs"
    and t: "tooLongMacCause field idx iface \<in> set cs"
    by blast
  from validateMacAddress_cases [of iface field idx] v m t
  show False
    using mac_causes_distinct [of field idx iface] by auto
qed

theorem mac_checks_exclusive_witness:
  "validateMacAddress NilPath 0 (mkInterface ''eth0'' [] ''not-a-mac'' [])
     = Inr [malformedMacCause NilPath 0 (mkInterface ''eth0'' [] ''not-a-mac'' [])]
   \<and> validateMacAddress NilPath 0 (mkInterface ''eth0'' [] ''02:00:5e:10:00:00:00:01'' [])
     = Inr [tooLongMacCause NilPath 0 (mkInterface ''eth0'' [] ''02:00:5e:10:00:00:00:01'' [])]
   \<and> validateMacAddress NilPath 0 (mkInterface ''eth0'' [] ''0123456789abcdef'' [])
     = Inr [tooLongMacCause NilPath 0 (mkInterface ''eth0'' [] ''0123456789abcdef'' [])]"
proof -
  show ?thesis
    using mac_checks_exclusive [of "mkInterface ''eth0'' [] ''not-a-mac'' []" NilPath 0]
      mac_checks_exclusive [of "mkInterface ''eth0'' [] ''02:00:5e:10:00:00:00:01'' []" NilPath 0]
      mac_checks_exclusive [of "mkInterface ''eth0'' [] ''0123456789abcdef'' []" NilPath 0]
    by (auto simp: mkInterface_def ParseMAC_not_a_mac ParseMAC_eui64 ParseMAC_plain64 macLen_def)
qed

subsection \<open>Examples\<close>



section \<open>Interface name, model and PCI address\<close>

lemma specNameChar_nameClass: "specNameChar c = nameClass c"
  by (auto simp: specNameChar_def nameClass_def)

lemma matchesNamePattern_isValid: "matchesNamePattern s \<Longrightarrow> isValid s"
  by (induction rule: matchesNamePattern.induct)
     (simp_all add: isValid_def specNameChar_nameClass)

lemma isValid_matchesNamePattern: "isValid s \<Longrightarrow> matchesNamePattern s"
proof (induction s)
  case Nil
  then show ?case by (simp add: isValid_def)
next
  case (Cons c cs)
  then have c: "specNameChar c" and all: "list_all nameClass cs"
    by (simp_all add: isValid_def specNameChar_nameClass)
  show ?case
  proof (cases "cs = []")
    case True
    with c show ?thesis by (simp add: matchesNamePattern.one)
  next
    case False
    with all have "isValid cs" by (simp add: isValid_def)
    with c Cons.IH show ?thesis by (simp add: matchesNamePattern.more)
  qed
qed

lemma isValid_iff: "isValid s \<longleftrightarrow> matchesNamePattern s"
  using matchesNamePattern_isValid isValid_matchesNamePattern by blast

lemma validateInterfaceNameFormat_eq:
  "validateInterfaceNameFormat field idx iface =
     (if isValid (Interface.Name iface) then [] else [nameFormatCause field idx])"
  by (simp add: validateInterfaceNameFormat_def nameFormatCause_def interfaceFieldPath_eq)

lemma isValid_examples:
  "isValid ''eth0''" "isValid ''my-iface_1''" "\<not> isValid []" "\<not> isValid ''eth 0''" "\<not> isValid ''eth/0''"
  by (simp_all add: isValid_def nameClass_def inRange_def)

text \<open>
  C5. For every interface, \<^verbatim>\<open>validateInterfaceNameFormat\<close> returns no cause if and only
  if the name matches \<^verbatim>\<open>^[A-Za-z0-9_-]+$\<close> in full, and otherwise exactly one cause of
  type Invalid at the path of the interface's name; \<^verbatim>\<open>eth0\<close> and \<^verbatim>\<open>my-iface_1\<close>
  pass; the empty name, \<^verbatim>\<open>eth 0\<close> and \<^verbatim>\<open>eth/0\<close> each get the one cause.
\<close>

theorem name_format_check:
  "(validateInterfaceNameFormat field idx iface = [] \<longleftrightarrow> matchesNamePattern (Interface.Name iface))
   \<and> (\<not> matchesNamePattern (Interface.Name iface) \<longrightarrow>
        validateInterfaceNameFormat field idx iface = [nameFormatCause field idx])
   \<and> (Interface.Name iface = ''eth0'' \<or> Interface.Name iface = ''my-iface_1'' \<longrightarrow>
        validateInterfaceNameFormat field idx iface = [])
   \<and> (Interface.Name iface = [] \<or> Interface.Name iface = ''eth 0'' \<or> Interface.Name iface = ''eth/0'' \<longrightarrow>
        validateInterfaceNameFormat field idx iface = [nameFormatCause field idx])
   \<and> Type (nameFormatCause field idx) = CauseTypeFieldValueInvalid
   \<and> Field (nameFormatCause field idx) = interfacesLeaf field idx ''name''"
  using isValid_examples
  by (auto simp: validateInterfaceNameFormat_eq isValid_iff [symmetric] nameFormatCause_def)

theorem name_format_check_witness:
  "validateInterfaceNameFormat NilPath 0 (mkInterface ''eth0'' [] [] []) = []
   \<and> matchesNamePattern ''eth0''
   \<and> validateInterfaceNameFormat NilPath 0 (mkInterface ''my-iface_1'' [] [] []) = []
   \<and> \<not> matchesNamePattern ''eth/0''
   \<and> validateInterfaceNameFormat NilPath 0 (mkInterface ''eth/0'' [] [] [])
       = [\<lparr>Type = CauseTypeFieldValueInvalid,
           Message = ''Network interface name can only contain alphabetical characters, numbers, dashes (-) or underscores (_)'',
           Field = ''domain.devices.interfaces[0].name''\<rparr>]
   \<and> validateInterfaceNameFormat NilPath 0 (mkInterface [] [] [] []) = [nameFormatCause NilPath 0]
   \<and> validateInterfaceNameFormat NilPath 0 (mkInterface ''eth 0'' [] [] []) = [nameFormatCause NilPath 0]"
proof -
  have l: "interfacesLeaf NilPath 0 ''name'' = ''domain.devices.interfaces[0].name''"
    by code_simp
  show ?thesis
    using name_format_check [of NilPath 0 "mkInterface ''eth0'' [] [] []"]
      name_format_check [of NilPath 0 "mkInterface ''my-iface_1'' [] [] []"]
      name_format_check [of NilPath 0 "mkInterface ''eth/0'' [] [] []"]
      name_format_check [of NilPath 0 "mkInterface [] [] [] []"]
      name_format_check [of NilPath 0 "mkInterface ''eth 0'' [] [] []"]
    by (auto simp: mkInterface_def nameFormatCause_def l)
qed

lemma dom_validInterfaceModels:
  "dom validInterfaceModels = {''e1000'', ''e1000e'', ''ne2k_pci'', ''pcnet'', ''rtl8139'', ''virtio''}"
  unfolding validInterfaceModels_def VirtIO_def dom_map_of_conv_image_fst by simp

lemma validateInterfaceModel_eq:
  "validateInterfaceModel field idx iface =
     (if Model iface = [] \<or> Model iface \<in> dom validInterfaceModels then []
      else [modelCause field idx iface])"
  by (auto simp: validateInterfaceModel_def modelCause_def interfaceFieldPath_eq domIff)

text \<open>
  C6. For every interface: an empty model produces no cause; a model among
  \<^verbatim>\<open>e1000\<close>, \<^verbatim>\<open>e1000e\<close>, \<^verbatim>\<open>ne2k_pci\<close>, \<^verbatim>\<open>pcnet\<close>, \<^verbatim>\<open>rtl8139\<close> and
  \<^verbatim>\<open>virtio\<close> produces no cause; any other non-empty model, such as \<^verbatim>\<open>banana\<close>,
  produces exactly one cause of type NotSupported; the whitelist is the constant map
  with exactly these six keys.
\<close>

theorem model_check:
  "(Model iface = [] \<longrightarrow> validateInterfaceModel field idx iface = [])
   \<and> (Model iface \<in> {''e1000'', ''e1000e'', ''ne2k_pci'', ''pcnet'', ''rtl8139'', VirtIO} \<longrightarrow>
        validateInterfaceModel field idx iface = [])
   \<and> (Model iface \<noteq> [] \<and> Model iface \<notin> {''e1000'', ''e1000e'', ''ne2k_pci'', ''pcnet'', ''rtl8139'', VirtIO} \<longrightarrow>
        validateInterfaceModel field idx iface = [modelCause field idx iface])
   \<and> (Model iface = ''banana'' \<longrightarrow> validateInterfaceModel field idx iface = [modelCause field idx iface])
   \<and> Type (modelCause field idx iface) = CauseTypeFieldValueNotSupported
   \<and> dom validInterfaceModels = {''e1000'', ''e1000e'', ''ne2k_pci'', ''pcnet'', ''rtl8139'', VirtIO}
   \<and> VirtIO = ''virtio''"
proof -
  have d: "dom validInterfaceModels = {''e1000'', ''e1000e'', ''ne2k_pci'', ''pcnet'', ''rtl8139'', VirtIO}"
    by (simp add: dom_validInterfaceModels VirtIO_def)
  have b: "''banana'' \<notin> {''e1000'', ''e1000e'', ''ne2k_pci'', ''pcnet'', ''rtl8139'', VirtIO}"
    by (simp add: VirtIO_def)
  show ?thesis
    unfolding validateInterfaceModel_eq d
    using b by (auto simp: modelCause_def VirtIO_def)
qed

theorem model_check_witness:
  "validateInterfaceModel NilPath 2 (mkInterface ''eth0'' [] [] []) = []
   \<and> validateInterfaceModel NilPath 2 (mkInterface ''eth0'' ''e1000e'' [] []) = []
   \<and> validateInterfaceModel NilPath 2 (mkInterface ''eth0'' ''virtio'' [] []) = []
   \<and> validateInterfaceModel NilPath 2 (mkInterface ''eth0'' ''banana'' [] [])
       = [\<lparr>Type = CauseTypeFieldValueNotSupported,
           Message = ''interface domain.devices.interfaces[2].name uses model banana that is not supported.'',
           Field = ''domain.devices.interfaces[2].model''\<rparr>]"
proof -
  have l: "interfacesLeaf NilPath 2 ''name'' = ''domain.devices.interfaces[2].name''"
    "interfacesLeaf NilPath 2 ''model'' = ''domain.devices.interfaces[2].model''"
    by code_simp+
  show ?thesis
    using model_check [of "mkInterface ''eth0'' [] [] []" NilPath 2]
      model_check [of "mkInterface ''eth0'' ''e1000e'' [] []" NilPath 2]
      model_check [of "mkInterface ''eth0'' ''virtio'' [] []" NilPath 2]
      model_check [of "mkInterface ''eth0'' ''banana'' [] []" NilPath 2]
    by (simp add: mkInterface_def modelCause_def l)
qed

lemma validatePciAddress_eq:
  "validatePciAddress field idx iface =
     (if PciAddress iface = [] \<or> ParsePciAddress (PciAddress iface) = None then []
      else [pciCause field idx iface])"
  by (simp add: validatePciAddress_def pciCause_def interfaceFieldPath_eq Let_def)

lemma ParsePciAddress_examples:
  "ParsePciAddress ''0000:00:1f.2'' = None"
  "ParsePciAddress ''zz:00:00.0'' = Some (PciAddressError ''zz:00:00.0'')"
  by (simp_all add: ParsePciAddress_def matchesPciAddress_def isHexDigit_def hexval_def inRange_def)

text \<open>
  C7. For every interface: an empty \<^verbatim>\<open>pciAddress\<close> produces no cause; one the parser
  accepts, such as \<^verbatim>\<open>0000:00:1f.2\<close>, produces no cause; a non-empty one the parser
  rejects, such as \<^verbatim>\<open>zz:00:00.0\<close>, produces exactly one cause of type Invalid at the
  path of the interface's \<^verbatim>\<open>pciAddress\<close>.
\<close>

theorem pci_check:
  "(PciAddress iface = [] \<longrightarrow> validatePciAddress field idx iface = [])
   \<and> (ParsePciAddress (PciAddress iface) = None \<longrightarrow> validatePciAddress field idx iface = [])
   \<and> (PciAddress iface \<noteq> [] \<and> ParsePciAddress (PciAddress iface) \<noteq> None \<longrightarrow>
        validatePciAddress field idx iface = [pciCause field idx iface])
   \<and> ParsePciAddress ''0000:00:1f.2'' = None
   \<and> ParsePciAddress ''zz:00:00.0'' \<noteq> None
   \<and> (PciAddress iface = ''0000:00:1f.2'' \<longrightarrow> validatePciAddress field idx iface = [])
   \<and> (PciAddress iface = ''zz:00:00.0'' \<longrightarrow> validatePciAddress field idx iface = [pciCause field idx iface])
   \<and> Type (pciCause field idx iface) = CauseTypeFieldValueInvalid
   \<and> Field (pciCause field idx iface) = interfacesLeaf field idx ''pciAddress''"
  using ParsePciAddress_examples
  by (auto simp: validatePciAddress_eq pciCause_def)

theorem pci_check_witness:
  "validatePciAddress NilPath 0 (mkInterface ''eth0'' [] [] []) = []
   \<and> validatePciAddress NilPath 0 (mkInterface ''eth0'' [] [] ''0000:00:1f.2'') = []
   \<and> validatePciAddress NilPath 0 (mkInterface ''eth0'' [] [] ''zz:00:00.0'')
       = [\<lparr>Type = CauseTypeFieldValueInvalid,
           Message = ''interface domain.devices.interfaces[0].name has malformed PCI address (zz:00:00.0).'',
           Field = ''domain.devices.interfaces[0].pciAddress''\<rparr>]"
proof -
  have l: "interfacesLeaf NilPath 0 ''name'' = ''domain.devices.interfaces[0].name''"
    "interfacesLeaf NilPath 0 ''pciAddress'' = ''domain.devices.interfaces[0].pciAddress''"
    by code_simp+
  show ?thesis
    using pci_check [of "mkInterface ''eth0'' [] [] []" NilPath 0]
      pci_check [of "mkInterface ''eth0'' [] [] ''0000:00:1f.2''" NilPath 0]
      pci_check [of "mkInterface ''eth0'' [] [] ''zz:00:00.0''" NilPath 0]
    by (simp add: mkInterface_def pciCause_def l)
qed

section \<open>All interfaces: the four sub-checks, concatenated\<close>

lemma validateMacAddress_Inr: "\<exists>cs. validateMacAddress field idx iface = Inr cs"
  using validateMacAddress_cases [of iface field idx] by auto

lemma validateInterfacesFields_loop_eq:
  "validateInterfacesFields_loop field (int n) ifaces causes =
     Inr (causes @ concat (map (\<lambda>(i, iface).
            validateInterfaceNameFormat field (int i) iface
            @ validateInterfaceModel field (int i) iface
            @ projr (validateMacAddress field (int i) iface)
            @ validatePciAddress field (int i) iface)
          (enumerate n ifaces)))"
proof (induction ifaces arbitrary: n causes)
  case Nil
  then show ?case by simp
next
  case (Cons iface rest)
  have s: "int n + 1 = int (Suc n)" by simp
  obtain cs where m: "validateMacAddress field (int n) iface = Inr cs"
    using validateMacAddress_Inr by blast
  show ?case
    unfolding validateInterfacesFields_loop.simps s Let_def m bindp_Inr Cons.IH
    by (simp add: m)
qed

text \<open>
  C8. For every field-path prefix and every spec, \<^verbatim>\<open>validateInterfacesFields\<close> returns
  the concatenation, over the interfaces in list order, of the cause lists of the four
  sub-checks in the order name, model, MAC address, PCI address (the MAC check never
  panics, so its list is always there); no sub-check's causes suppress another's.
\<close>

theorem fields_check_concat:
  "(\<forall>idx iface. \<exists>cs. validateMacAddress field idx iface = Inr cs)
   \<and> validateInterfacesFields field spec =
       Inr (concat (map (\<lambda>(i, iface).
              validateInterfaceNameFormat field (int i) iface
              @ validateInterfaceModel field (int i) iface
              @ projr (validateMacAddress field (int i) iface)
              @ validatePciAddress field (int i) iface)
            (enumerate 0 (Interfaces (Devices (VirtualMachineInstanceSpec.Domain spec))))))"
  using validateInterfacesFields_loop_eq [of field 0 _ "[]"] validateMacAddress_Inr
  by (simp add: validateInterfacesFields_def)

theorem fields_check_concat_witness:
  "validateInterfacesFields NilPath
     (mkSpec [] [mkInterface ''eth/0'' ''banana'' ''not-a-mac'' ''zz:00:00.0'',
                 mkInterface ''eth1'' ''virtio'' ''02:00:5e:10:00:00:00:01'' ''0000:00:1f.2''])
   = Inr [nameFormatCause NilPath 0,
          modelCause NilPath 0 (mkInterface ''eth/0'' ''banana'' ''not-a-mac'' ''zz:00:00.0''),
          malformedMacCause NilPath 0 (mkInterface ''eth/0'' ''banana'' ''not-a-mac'' ''zz:00:00.0''),
          pciCause NilPath 0 (mkInterface ''eth/0'' ''banana'' ''not-a-mac'' ''zz:00:00.0''),
          tooLongMacCause NilPath 1 (mkInterface ''eth1'' ''virtio'' ''02:00:5e:10:00:00:00:01'' ''0000:00:1f.2'')]"
proof -
  let ?i0 = "mkInterface ''eth/0'' ''banana'' ''not-a-mac'' ''zz:00:00.0''"
  let ?i1 = "mkInterface ''eth1'' ''virtio'' ''02:00:5e:10:00:00:00:01'' ''0000:00:1f.2''"
  have n: "validateInterfaceNameFormat NilPath 0 ?i0 = [nameFormatCause NilPath 0]"
    "validateInterfaceNameFormat NilPath 1 ?i1 = []"
    by (simp_all add: validateInterfaceNameFormat_eq mkInterface_def isValid_def nameClass_def inRange_def)
  have m: "validateInterfaceModel NilPath 0 ?i0 = [modelCause NilPath 0 ?i0]"
    "validateInterfaceModel NilPath 1 ?i1 = []"
    by (simp_all add: validateInterfaceModel_eq dom_validInterfaceModels mkInterface_def)
  have a: "validateMacAddress NilPath 0 ?i0 = Inr [malformedMacCause NilPath 0 ?i0]"
    using validateMacAddress_eq [of ?i0 "[]" "Some (AddrError ''invalid MAC address'' ''not-a-mac'')" NilPath 0]
      ParseMAC_not_a_mac
    by (simp add: mkInterface_def macLen_def)
  have b: "validateMacAddress NilPath 1 ?i1 = Inr [tooLongMacCause NilPath 1 ?i1]"
    using validateMacAddress_eq [of ?i1 "[0x02, 0x00, 0x5e, 0x10, 0x00, 0x00, 0x00, 0x01]" None NilPath 1]
      ParseMAC_eui64
    by (simp add: mkInterface_def macLen_def)
  have p: "validatePciAddress NilPath 0 ?i0 = [pciCause NilPath 0 ?i0]"
    "validatePciAddress NilPath 1 ?i1 = []"
    by (simp_all add: validatePciAddress_eq ParsePciAddress_examples mkInterface_def)
  have e: "enumerate 0 [?i0, ?i1] = [(0, ?i0), (1, ?i1)]"
    by simp
  have "validateInterfacesFields NilPath (mkSpec [] [?i0, ?i1]) =
       Inr (concat (map (\<lambda>(i, iface).
              validateInterfaceNameFormat NilPath (int i) iface
              @ validateInterfaceModel NilPath (int i) iface
              @ projr (validateMacAddress NilPath (int i) iface)
              @ validatePciAddress NilPath (int i) iface)
            (enumerate 0 [?i0, ?i1])))"
    using fields_check_concat [of NilPath "mkSpec [] [?i0, ?i1]"]
    by (simp add: mkSpec_def)
  then show ?thesis
    unfolding e by (simp add: n m a b p)
qed

section \<open>Field paths as heap objects: only new nodes are written\<close>

lemma NewPath_loop_eq:
  "r + 1 = length h \<Longrightarrow>
   NewPath_loop h r ms = (h @ map (chainNode r) (enumerate 0 ms), r + length ms)"
proof (induction ms arbitrary: h r)
  case Nil
  then show ?case by simp
next
  case (Cons m rest)
  have "map (chainNode (Suc r)) (enumerate 0 rest) = map (chainNode r) (enumerate (Suc 0) rest)"
    by (simp add: enumerate_Suc_eq chainNode_def split_def apfst_def map_prod_def)
  moreover have l: "length h = Suc r"
    using Cons.prems by simp
  ultimately show ?case
    using Cons.IH [of "Suc r" "h @ [\<lparr>nodeName = m, nodeIndex = [], nodeParent = Some r\<rparr>]"]
    by (simp add: new_def l) (simp add: chainNode_def)
qed

lemma NewPath_h_eq:
  "NewPath_h h nm ms =
     (h @ \<lparr>nodeName = nm, nodeIndex = [], nodeParent = None\<rparr> # map (chainNode (length h)) (enumerate 0 ms),
      length h + length ms)"
  using NewPath_loop_eq [of "length h" "h @ [\<lparr>nodeName = nm, nodeIndex = [], nodeParent = None\<rparr>]" ms]
  by (simp add: NewPath_h_def new_def)

lemma pathAt_append: "pathAt h p P \<Longrightarrow> pathAt (h @ ext) p P"
proof (induction rule: pathAt.induct)
  case (nil h)
  show ?case by (rule pathAt.nil)
next
  case (node a h par)
  have "pathAt (h @ ext) (Some a)
          (Path (nodeName ((h @ ext) ! a)) (nodeIndex ((h @ ext) ! a)) par)"
    using node by (intro pathAt.node) (simp_all add: nth_append)
  then show ?case using node.hyps(1) by (simp add: nth_append)
qed

lemma chain_nth:
  "k < length ms \<Longrightarrow>
   (h @ root # map (chainNode (length h)) (enumerate 0 ms)) ! (length h + Suc k)
     = \<lparr>nodeName = ms ! k, nodeIndex = [], nodeParent = Some (length h + k)\<rparr>"
  by (simp add: nth_append nth_enumerate_eq chainNode_def)

lemma Root_h_chain:
  "nodeParent root = None \<Longrightarrow> k \<le> length ms \<Longrightarrow>
   Root_h (h @ root # map (chainNode (length h)) (enumerate 0 ms)) (length h + k) = Some (length h)"
proof (induction k)
  case 0
  then show ?case by (subst Root_h.simps) (simp add: nth_append)
next
  case (Suc k)
  then have k: "k < length ms" by simp
  show ?case
    using Suc k by (subst Root_h.simps) (simp add: nth_append nth_enumerate_eq chainNode_def)
qed

lemma NewPath_not_nil: "foldl (\<lambda>r anotherName. Path anotherName [] r) (Path nm ix par) ms \<noteq> NilPath"
  by (induction ms arbitrary: nm ix par) simp_all

lemma setRootParent_Path:
  "X \<noteq> NilPath \<Longrightarrow> setRootParent (Path m ix X) P = Path m ix (setRootParent X P)"
  by (cases X) simp_all

lemma pathAt_chain:
  assumes "pathAt h p P" and "k \<le> length ms"
  shows "pathAt (h @ \<lparr>nodeName = nm, nodeIndex = [], nodeParent = p\<rparr> # map (chainNode (length h)) (enumerate 0 ms))
           (Some (length h + k))
           (setRootParent (foldl (\<lambda>r anotherName. Path anotherName [] r) (Path nm [] NilPath) (take k ms)) P)"
  using assms(2)
proof (induction k)
  case 0
  let ?h = "h @ \<lparr>nodeName = nm, nodeIndex = [], nodeParent = p\<rparr> # map (chainNode (length h)) (enumerate 0 ms)"
  have "pathAt ?h (Some (length h)) (Path (nodeName (?h ! length h)) (nodeIndex (?h ! length h)) P)"
    using pathAt_append [OF assms(1)] by (intro pathAt.node) simp_all
  then show ?case by simp
next
  case (Suc k)
  then have k: "k < length ms" by simp
  let ?h = "h @ \<lparr>nodeName = nm, nodeIndex = [], nodeParent = p\<rparr> # map (chainNode (length h)) (enumerate 0 ms)"
  let ?X = "foldl (\<lambda>r anotherName. Path anotherName [] r) (Path nm [] NilPath) (take k ms)"
  have n: "?h ! (length h + Suc k) = \<lparr>nodeName = ms ! k, nodeIndex = [], nodeParent = Some (length h + k)\<rparr>"
    by (rule chain_nth [OF k])
  have IH: "pathAt ?h (Some (length h + k)) (setRootParent ?X P)"
    using Suc by simp
  have "pathAt ?h (Some (length h + Suc k))
      (Path (nodeName (?h ! (length h + Suc k))) (nodeIndex (?h ! (length h + Suc k))) (setRootParent ?X P))"
    using k IH by (intro pathAt.node) (simp_all only: n, simp_all)
  then have "pathAt ?h (Some (length h + Suc k)) (Path (ms ! k) [] (setRootParent ?X P))"
    by (simp only: n) simp
  then show ?case
    by (simp add: take_Suc_conv_app_nth [OF k] setRootParent_Path [OF NewPath_not_nil])
qed

lemma Child_h_correct:
  assumes "pathAt h p P"
  shows "\<exists>ext r. Child_h h p nm ms = Some (h @ ext, r) \<and> pathAt (h @ ext) (Some r) (Child P nm ms)"
proof -
  let ?chain = "map (chainNode (length h)) (enumerate 0 ms)"
  have r: "Root_h (h @ \<lparr>nodeName = nm, nodeIndex = [], nodeParent = None\<rparr> # ?chain) (length h + length ms)
      = Some (length h)"
    by (rule Root_h_chain) simp_all
  have c: "Child_h h p nm ms =
      Some (h @ \<lparr>nodeName = nm, nodeIndex = [], nodeParent = p\<rparr> # ?chain, length h + length ms)"
    by (simp add: Child_h_def NewPath_h_eq r)
  have "pathAt (h @ \<lparr>nodeName = nm, nodeIndex = [], nodeParent = p\<rparr> # ?chain)
      (Some (length h + length ms)) (Child P nm ms)"
    using pathAt_chain [OF assms, of "length ms" ms nm] by (simp add: Child_def NewPath_def)
  with c show ?thesis by blast
qed

lemma Index_h_correct:
  assumes "pathAt h p P"
  shows "\<exists>ext r. Index_h h p i = (h @ ext, r) \<and> pathAt (h @ ext) (Some r) (Index P i)"
proof -
  let ?h = "h @ [\<lparr>nodeName = [], nodeIndex = Itoa i, nodeParent = p\<rparr>]"
  have "pathAt ?h (Some (length h)) (Path (nodeName (?h ! length h)) (nodeIndex (?h ! length h)) P)"
    using pathAt_append [OF assms] by (intro pathAt.node) simp_all
  then show ?thesis
    by (simp add: Index_h_def new_def Index_def)
qed

lemma pathAt_unique: "pathAt h p P \<Longrightarrow> pathAt h p P' \<Longrightarrow> P = P'"
proof (induction arbitrary: P' rule: pathAt.induct)
  case (nil h)
  then show ?case by (auto elim: pathAt.cases)
next
  case (node a h par)
  from node.prems show ?case
    by (rule pathAt.cases) (use node.IH in auto)
qed

section \<open>\<^verbatim>\<open>strconv.Quote\<close> never indexes out of range\<close>

lemma first_size: "first b < 0xF0 \<Longrightarrow> first b mod 8 = 2 \<or> first b mod 8 = 3 \<or> first b mod 8 = 4"
  by (simp add: first_def split: if_splits)

lemma DecodeRuneInString_p_eq: "DecodeRuneInString_p s = Inr (DecodeRuneInString s)"
proof (cases "length s < 1")
  case True
  then show ?thesis by (simp add: DecodeRuneInString_p_def DecodeRuneInString_def)
next
  case n: False
  define x where "x = first (of_char (s ! 0))"
  show ?thesis
  proof (cases "x \<ge> 0xF0")
    case True
    then show ?thesis
      using n by (simp add: DecodeRuneInString_p_def DecodeRuneInString_def Let_def at_def x_def)
  next
    case False
    then have sz: "x mod 8 = 2 \<or> x mod 8 = 3 \<or> x mod 8 = 4"
      using first_size [of "of_char (s ! 0)"] by (simp add: x_def)
    show ?thesis
    proof (cases "length s < x mod 8")
      case True
      then show ?thesis
        using n False by (simp add: DecodeRuneInString_p_def DecodeRuneInString_def Let_def at_def x_def)
    next
      case ge: False
      from sz ge have "(x mod 8 = 2 \<and> 2 \<le> length s) \<or> (x mod 8 = 3 \<and> 3 \<le> length s) \<or> (x mod 8 = 4 \<and> 4 \<le> length s)"
        by auto
      then show ?thesis
        using n False ge
        by (auto simp: DecodeRuneInString_p_def DecodeRuneInString_def Let_def at_def x_def)
    qed
  qed
qed

lemma nextRune_p_eq: "s \<noteq> [] \<Longrightarrow> nextRune_p s = Inr (nextRune s)"
  by (cases s) (simp_all add: nextRune_p_def nextRune_def at_def DecodeRuneInString_p_eq)

lemma lowerhex_p_eq: "d < 16 \<Longrightarrow> lowerhex_p d = Inr (lowerhex d)"
  by (simp add: lowerhex_p_def lowerhex_def at_def)

lemma lowerhex_mod: "lowerhex (d mod 16) = lowerhex d"
  by (simp add: lowerhex_def)

lemma hexdigits_p_eq: "hexdigits_p k r = Inr (hexdigits k r)"
  by (induction k) (simp_all add: lowerhex_p_eq lowerhex_mod)

lemma appendEscapedRune_p_eq: "appendEscapedRune_p tables r = Inr (appendEscapedRune tables r)"
proof (cases "r < 0x20 \<or> r = 0x7F")
  case True
  then have "(r mod 256) div 16 < 16" "r mod 256 mod 16 < 16" "r mod 256 = r"
    by auto
  then show ?thesis
    using True
    by (simp add: appendEscapedRune_p_def appendEscapedRune_def hexdigits_p_eq lowerhex_p_eq
        numeral_2_eq_2 lowerhex_mod)
next
  case False
  then show ?thesis
    by (simp add: appendEscapedRune_p_def appendEscapedRune_def hexdigits_p_eq)
qed

lemma DecodeRuneInString_width: "s \<noteq> [] \<Longrightarrow> snd (DecodeRuneInString s) \<le> length s"
proof -
  assume "s \<noteq> []"
  then have n: "1 \<le> length s" by (cases s) simp_all
  define x where "x = first (of_char (s ! 0))"
  show ?thesis
  proof (cases "x \<ge> 0xF0")
    case True
    then show ?thesis
      using n by (simp add: DecodeRuneInString_def Let_def x_def)
  next
    case False
    then have sz: "x mod 8 = 2 \<or> x mod 8 = 3 \<or> x mod 8 = 4"
      using first_size [of "of_char (s ! 0)"] by (simp add: x_def)
    show ?thesis
    proof (cases "length s < x mod 8")
      case True
      then show ?thesis
        using n False by (simp add: DecodeRuneInString_def Let_def x_def)
    next
      case ge: False
      from sz ge have "(x mod 8 = 2 \<and> 2 \<le> length s) \<or> (x mod 8 = 3 \<and> 3 \<le> length s) \<or> (x mod 8 = 4 \<and> 4 \<le> length s)"
        by auto
      then show ?thesis
        using n False ge
        by (auto simp: DecodeRuneInString_def Let_def x_def)
    qed
  qed
qed

lemma nextRune_le: "s \<noteq> [] \<Longrightarrow> snd (nextRune s) \<le> length s"
  using DecodeRuneInString_width [of s] by (cases s) (simp_all add: nextRune_def)

lemma appendQuotedWith_loop_p_eq:
  "appendQuotedWith_loop_p tables buf s = Inr (appendQuotedWith_loop tables buf s)"
proof (induction "length s" arbitrary: buf s rule: less_induct)
  case less
  show ?case
  proof (cases "s = []")
    case True
    then show ?thesis
      by (subst appendQuotedWith_loop_p.simps, subst appendQuotedWith_loop.simps) simp
  next
    case False
    obtain r width where n: "nextRune s = (r, width)"
      by (cases "nextRune s")
    have w: "0 < width" "width \<le> length s \<or> length s < width"
      using nextRune_width [OF False] n by auto
    have le: "width \<le> length s"
      using nextRune_le [OF False] n by simp
    have d: "length (drop width s) < length s"
      using w False by simp
    have h: "of_char (hd s) div 16 < (16 :: nat)" "of_char (hd s) mod 16 < (16 :: nat)"
      by (simp_all add: div_less_iff_less_mult)
    have s0: "at s 0 = Inr (hd s)"
      using False by (cases s) (simp_all add: at_def)
    show ?thesis
      using less [OF d] False n le s0 h
      by (subst appendQuotedWith_loop_p.simps, subst appendQuotedWith_loop.simps)
         (auto simp: nextRune_p_eq sliceFrom_def lowerhex_p_eq appendEscapedRune_p_eq Let_def)
  qed
qed

lemma Quote_p_eq: "Quote_p tables s = Inr (Quote tables s)"
  by (simp add: Quote_p_def Quote_def appendQuotedWith_loop_p_eq)

section \<open>Every run of a check returns what the check computes\<close>

lemma ParseMAC_Inr: "\<exists>hw err. ParseMAC s = Inr (hw, err)"
  using ParseMAC_cases [of s] by auto

lemma grows_refl: "grows st st"
  by (simp add: grows_def)

lemma grows_trans: "grows a b \<Longrightarrow> grows b c \<Longrightarrow> grows a c"
  by (auto simp: grows_def)

lemma pathAt_grows: "grows st st' \<Longrightarrow> pathAt (paths st) p P \<Longrightarrow> pathAt (paths st') p P"
  by (auto simp: grows_def pathAt_append)

lemma returnsWith_return: "Q v st \<Longrightarrow> returnsWith (returnx v) st Q"
  by (auto simp: returnsWith_def returnx_def grows_refl)

lemma returnsWith_bind:
  assumes "returnsWith m st Q"
    and "\<And>v st'. grows st st' \<Longrightarrow> Q v st' \<Longrightarrow> returnsWith (f v) st' R"
  shows "returnsWith (bindx m f) st R"
proof -
  from assms(1) obtain v st' where m: "m st = Returns (v, st')" and g: "grows st st'" and q: "Q v st'"
    by (auto simp: returnsWith_def)
  from assms(2) [OF g q] obtain w st'' where f: "f v st' = Returns (w, st'')" and g': "grows st' st''"
    and r: "R w st''"
    by (auto simp: returnsWith_def)
  show ?thesis
    using m f r grows_trans [OF g g'] by (auto simp: returnsWith_def bindx_def)
qed

lemma Child_x_returns:
  assumes "pathAt (paths st) p P"
  shows "returnsWith (Child_x p nm ms) st (\<lambda>r st'. pathAt (paths st') r (Child P nm ms))"
proof -
  obtain ext r where c: "Child_h (paths st) p nm ms = Some (paths st @ ext, r)"
    and p: "pathAt (paths st @ ext) (Some r) (Child P nm ms)"
    using Child_h_correct [OF assms] by blast
  show ?thesis
    using c p by (auto simp: returnsWith_def Child_x_def grows_def)
qed

lemma Index_x_returns:
  assumes "pathAt (paths st) p P"
  shows "returnsWith (Index_x p i) st (\<lambda>r st'. pathAt (paths st') r (Index P i))"
proof -
  obtain ext r where c: "Index_h (paths st) p i = (paths st @ ext, r)"
    and p: "pathAt (paths st @ ext) (Some r) (Index P i)"
    using Index_h_correct [OF assms] by blast
  show ?thesis
    using c p by (auto simp: returnsWith_def Index_x_def grows_def)
qed

lemma pathAt_None_iff: "pathAt h p P \<Longrightarrow> (p = None) = (P = NilPath)"
  by (auto elim: pathAt.cases)

lemma elems_h_pathAt:
  "pathAt h p P \<Longrightarrow>
   \<exists>as. elems_h h p es = Some (es @ as) \<and> map (writeElem_h h) as = map writeElem (elems P)"
proof (induction arbitrary: es rule: pathAt.induct)
  case (nil h)
  show ?case by (subst elems_h.simps) simp
next
  case (node a h par)
  obtain as where e: "elems_h h (nodeParent (h ! a)) (es @ [a]) = Some ((es @ [a]) @ as)"
    and w: "map (writeElem_h h) as = map writeElem (elems par)"
    using node.IH [of "es @ [a]"] by blast
  have "writeElem_h h a = writeElem (Path (nodeName (h ! a)) (nodeIndex (h ! a)) par)"
    using pathAt_None_iff [OF node.hyps(2)] by (simp add: writeElem_h_def writeElem_def)
  then show ?case
    using node.hyps(1) e w by (subst elems_h.simps) (intro exI [of _ "a # as"], simp)
qed

lemma String_loop_eq:
  "(\<forall>i\<in>set is. i < length es) \<Longrightarrow>
   String_loop h es is buf =
     Inr (buf @ concat (map (\<lambda>i. writeElem_h h (es ! (length es - 1 - i))) is))"
proof (induction "is" arbitrary: buf)
  case Nil
  then show ?case by simp
next
  case (Cons i rest)
  then have i: "i < length es" by simp
  then have n: "nat (int (length es) - 1 - int i) = length es - 1 - i"
    by simp
  have "at_int es (int (length es) - 1 - int i) = Inr (es ! (length es - 1 - i))"
    using i by (simp add: at_int_def n)
  then show ?case
    using Cons by simp
qed

lemma rev_by_index: "map (\<lambda>i. es ! (length es - 1 - i)) [0..<length es] = rev es"
  by (rule nth_equalityI) (simp_all add: rev_nth)

lemma String_h_pathAt:
  assumes "pathAt h p P"
  shows "String_h h p = Some (Inr (String P))"
proof (cases p)
  case None
  then show ?thesis
    using pathAt_None_iff [OF assms] by (simp add: String_h_def String_def)
next
  case (Some a)
  then have P: "P \<noteq> NilPath"
    using pathAt_None_iff [OF assms] by simp
  obtain as where e: "elems_h h p [] = Some as"
    and w: "map (writeElem_h h) as = map writeElem (elems P)"
    using elems_h_pathAt [OF assms, of "[]"] by auto
  have "map (\<lambda>i. writeElem_h h (as ! (length as - 1 - i))) [0..<length as]
      = map (writeElem_h h) (map (\<lambda>i. as ! (length as - 1 - i)) [0..<length as])"
    by simp
  also have "\<dots> = map (writeElem_h h) (rev as)"
    by (simp only: rev_by_index)
  also have "\<dots> = map writeElem (rev (elems P))"
    using w by (simp add: rev_map [symmetric])
  finally have m: "map (\<lambda>i. writeElem_h h (as ! (length as - 1 - i))) [0..<length as]
      = map writeElem (rev (elems P))" .
  have "String_loop h as [0..<length as] [] = Inr (concat (map writeElem (rev (elems P))))"
    using String_loop_eq [of "[0..<length as]" as h "[]"] m by simp
  then show ?thesis
    using Some e P by (simp add: String_h_def String_def)
qed

lemma String_x_returns:
  assumes "pathAt (paths st) p P"
  shows "returnsWith (String_x p) st (\<lambda>s st'. s = String P)"
  using String_h_pathAt [OF assms]
  by (simp add: returnsWith_def String_x_def liftp_def grows_refl)

lemma leafPath_returns:
  assumes "pathAt (paths st) field P"
  shows "returnsWith
           (bindx (Child_x field nm ms) (\<lambda>a.
            bindx (Index_x a i) (\<lambda>b.
            bindx (Child_x b leaf []) (\<lambda>c. String_x c)))) st
           (\<lambda>s st'. s = String (Child (Index (Child P nm ms) i) leaf []))"
proof (rule returnsWith_bind [OF Child_x_returns [OF assms]])
  fix a and st1 :: state
  assume a: "pathAt (paths st1) a (Child P nm ms)"
  show "returnsWith (bindx (Index_x a i) (\<lambda>b. bindx (Child_x b leaf []) (\<lambda>c. String_x c))) st1
          (\<lambda>s st'. s = String (Child (Index (Child P nm ms) i) leaf []))"
  proof (rule returnsWith_bind [OF Index_x_returns [OF a]])
    fix b and st2 :: state
    assume b: "pathAt (paths st2) b (Index (Child P nm ms) i)"
    show "returnsWith (bindx (Child_x b leaf []) (\<lambda>c. String_x c)) st2
            (\<lambda>s st'. s = String (Child (Index (Child P nm ms) i) leaf []))"
    proof (rule returnsWith_bind [OF Child_x_returns [OF b]])
      fix c and st3 :: state
      assume c: "pathAt (paths st3) c (Child (Index (Child P nm ms) i) leaf [])"
      show "returnsWith (String_x c) st3 (\<lambda>s st'. s = String (Child (Index (Child P nm ms) i) leaf []))"
        by (rule String_x_returns [OF c])
    qed
  qed
qed

lemma bind_networkNamePath:
  assumes "pathAt (paths st) field P"
    and "\<And>st'. pathAt (paths st') field P \<Longrightarrow> returnsWith (f (networkNamePath P i)) st' R"
  shows "returnsWith (bindx (networkNamePath_x field i) f) st R"
proof (rule returnsWith_bind)
  show "returnsWith (networkNamePath_x field i) st (\<lambda>s st'. s = networkNamePath P i)"
    unfolding networkNamePath_x_def networkNamePath_def by (rule leafPath_returns [OF assms(1)])
next
  fix v and st' :: state
  assume "grows st st'" and "v = networkNamePath P i"
  then show "returnsWith (f v) st' R"
    using assms(2) [OF pathAt_grows [OF _ assms(1)]] by simp
qed

lemma bind_interfaceFieldPath:
  assumes "pathAt (paths st) field P"
    and "\<And>st'. pathAt (paths st') field P \<Longrightarrow> returnsWith (f (interfaceFieldPath P idx leaf)) st' R"
  shows "returnsWith (bindx (interfaceFieldPath_x field idx leaf) f) st R"
proof (rule returnsWith_bind)
  show "returnsWith (interfaceFieldPath_x field idx leaf) st (\<lambda>s st'. s = interfaceFieldPath P idx leaf)"
    unfolding interfaceFieldPath_x_def interfaceFieldPath_def by (rule leafPath_returns [OF assms(1)])
next
  fix v and st' :: state
  assume "grows st st'" and "v = interfaceFieldPath P idx leaf"
  then show "returnsWith (f v) st' R"
    using assms(2) [OF pathAt_grows [OF _ assms(1)]] by simp
qed

lemma map_of_mapassign: "map_of (mapassign hash m k v) = (map_of m)(k \<mapsto> v)"
proof (cases "map_of m k = None")
  case True
  define j where "j = hash k mod (length m + 1)"
  have k: "map_of (take j m) k = None"
  proof (rule ccontr)
    assume "map_of (take j m) k \<noteq> None"
    then obtain v' where "(k, v') \<in> set (take j m)"
      by (auto dest: map_of_SomeD)
    then have "k \<in> fst ` set m"
      by (auto dest: in_set_takeD simp: image_iff intro: bexI [of _ "(k, v')"])
    then show False
      using True by (simp add: map_of_eq_None_iff)
  qed
  have m: "map_of m = map_of (drop j m) ++ map_of (take j m)"
    by (metis append_take_drop_id map_of_append)
  have "map_of (take j m @ (k, v) # drop j m) = (map_of m)(k \<mapsto> v)"
    unfolding m using k by (auto simp: fun_eq_iff map_add_def split: option.splits)
  then show ?thesis
    using True by (simp add: mapassign_def j_def Let_def)
next
  case False
  have other: "x \<noteq> k \<Longrightarrow> map_of (map (\<lambda>(k', v'). if k' = k then (k', v) else (k', v')) m) x = map_of m x" for x
    by (induction m) auto
  have same: "map_of m k \<noteq> None \<Longrightarrow> map_of (map (\<lambda>(k', v'). if k' = k then (k', v) else (k', v')) m) k = Some v"
    by (induction m) (auto split: if_splits)
  show ?thesis
    using False other same by (auto simp: mapassign_def fun_eq_iff)
qed

lemma map_of_foldl_mapassign:
  "map_of (foldl (\<lambda>m x. mapassign hash m (key x) (val x)) m0 xs)
     = foldl (\<lambda>m x. m(key x \<mapsto> val x)) (map_of m0) xs"
  by (induction xs arbitrary: m0) (simp_all add: map_of_mapassign)

lemma IndexInterfaceSpecByName_x_eq:
  "map_of (IndexInterfaceSpecByName_x hash interfaces) = IndexInterfaceSpecByName interfaces"
  using map_of_foldl_mapassign [of hash Interface.Name "\<lambda>x. x" "[]" interfaces]
  by (simp add: IndexInterfaceSpecByName_x_def IndexInterfaceSpecByName_def)

lemma IndexNetworkSpecByName_x_eq:
  "map_of (IndexNetworkSpecByName_x hash networks) = IndexNetworkSpecByName networks"
  using map_of_foldl_mapassign [of hash Network.Name "\<lambda>x. x" "[]" networks]
  by (simp add: IndexNetworkSpecByName_x_def IndexNetworkSpecByName_def)

lemma validInterfaceModels_x_eq: "map_of (validInterfaceModels_x hash) = validInterfaceModels"
  by (simp add: validInterfaceModels_x_def validInterfaceModels_def map_of_mapassign fun_eq_iff)

lemma bind_liftp: "r = Inr v \<Longrightarrow> returnsWith (f v) st R \<Longrightarrow> returnsWith (bindx (liftp r) f) st R"
  by (simp add: bindx_def liftp_def returnsWith_def)

lemma bind_sub:
  assumes "returnsWith m st Q"
    and "pathAt (paths st) field P"
    and "\<And>v st'. pathAt (paths st') field P \<Longrightarrow> Q v st' \<Longrightarrow> returnsWith (f v) st' R"
  shows "returnsWith (bindx m f) st R"
  using assms(1)
proof (rule returnsWith_bind)
  fix v and st' :: state
  assume "grows st st'" and "Q v st'"
  then show "returnsWith (f v) st' R"
    using assms(3) [OF pathAt_grows [OF _ assms(2)]] by simp
qed

lemma validateNetworksAssignedToInterfaces_loop_x_returns:
  "pathAt (paths st) field P \<Longrightarrow>
   returnsWith (validateNetworksAssignedToInterfaces_loop_x field m i nets causes) st
     (\<lambda>cs st'. cs = validateNetworksAssignedToInterfaces_loop P (map_of m) i nets causes)"
proof (induction nets arbitrary: i causes st)
  case Nil
  show ?case by (simp add: returnsWith_return)
next
  case (Cons network rest)
  show ?case
    using Cons.prems
    by (auto simp: mapaccess_def intro!: bind_networkNamePath Cons.IH)
qed

lemma validateInterfacesAssignedToNetworks_loop_x_returns:
  "pathAt (paths st) field P \<Longrightarrow>
   returnsWith (validateInterfacesAssignedToNetworks_loop_x field m idx ifaces causes) st
     (\<lambda>cs st'. cs = validateInterfacesAssignedToNetworks_loop P (map_of m) idx ifaces causes)"
proof (induction ifaces arbitrary: idx causes st)
  case Nil
  show ?case by (simp add: returnsWith_return)
next
  case (Cons iface rest)
  show ?case
    using Cons.prems
    by (auto simp: mapaccess_def intro!: bind_interfaceFieldPath Cons.IH)
qed

lemma validateNetworkNameUnique_loop_x_returns:
  "pathAt (paths st) field P \<Longrightarrow>
   returnsWith (validateNetworkNameUnique_loop_x hash tables field m i nets causes) st
     (\<lambda>cs st'. cs = validateNetworkNameUnique_loop tables P (map_of m) i nets causes)"
proof (induction nets arbitrary: m i causes st)
  case Nil
  show ?case by (simp add: returnsWith_return)
next
  case (Cons network rest)
  show ?case
    using Cons.prems
    by (auto simp: mapaccess_def map_of_mapassign [of hash, symmetric]
        intro!: bind_liftp [OF Quote_p_eq] bind_networkNamePath Cons.IH)
qed

lemma validateInterfaceNameUnique_loop_x_returns:
  "pathAt (paths st) field P \<Longrightarrow>
   returnsWith (validateInterfaceNameUnique_loop_x hash field m idx ifaces causes) st
     (\<lambda>cs st'. cs = validateInterfaceNameUnique_loop P (map_of m) idx ifaces causes)"
proof (induction ifaces arbitrary: m idx causes st)
  case Nil
  show ?case by (simp add: returnsWith_return)
next
  case (Cons iface rest)
  show ?case
    using Cons.prems
    by (auto simp: mapaccess_def map_of_mapassign [of hash, symmetric]
        intro!: bind_interfaceFieldPath Cons.IH)
qed

lemma validateInterfaceNameFormat_x_returns:
  "pathAt (paths st) field P \<Longrightarrow>
   returnsWith (validateInterfaceNameFormat_x field idx iface) st
     (\<lambda>cs st'. cs = validateInterfaceNameFormat P idx iface)"
  by (auto simp: validateInterfaceNameFormat_x_def validateInterfaceNameFormat_def
      intro!: bind_interfaceFieldPath returnsWith_return)

lemma validateInterfaceModel_x_returns:
  "pathAt (paths st) field P \<Longrightarrow>
   returnsWith (validateInterfaceModel_x hash field idx iface) st
     (\<lambda>cs st'. cs = validateInterfaceModel P idx iface)"
  by (auto simp: validateInterfaceModel_x_def validateInterfaceModel_def mapaccess_def
        validInterfaceModels_x_eq
      intro!: bind_interfaceFieldPath returnsWith_return)

lemma validatePciAddress_x_returns:
  "pathAt (paths st) field P \<Longrightarrow>
   returnsWith (validatePciAddress_x field idx iface) st
     (\<lambda>cs st'. cs = validatePciAddress P idx iface)"
  by (auto simp: validatePciAddress_x_def validatePciAddress_def
      intro!: bind_interfaceFieldPath returnsWith_return)

lemma bindx_liftp_Inr: "bindx (liftp (Inr v)) f = f v"
  by (simp add: bindx_def liftp_def)

lemma bindx_returnx: "bindx (returnx v) f = f v"
  by (simp add: bindx_def returnx_def)

lemma bindx_assoc: "bindx (bindx m f) g = bindx m (\<lambda>v. bindx (f v) g)"
  by (auto simp: bindx_def fun_eq_iff split: outcome.splits)

lemma validateMacAddress_x_returns:
  assumes "pathAt (paths st) field P"
  shows "returnsWith (validateMacAddress_x field idx iface) st
     (\<lambda>cs st'. validateMacAddress P idx iface = Inr cs)"
proof -
  obtain hw err where p: "ParseMAC (MacAddress iface) = Inr (hw, err)"
    using ParseMAC_Inr by blast
  show ?thesis
    using assms
    by (auto simp: validateMacAddress_x_def validateMacAddress_def p Let_def
          bindx_liftp_Inr bindx_returnx bindx_assoc
        intro!: bind_interfaceFieldPath returnsWith_return)
qed

lemma validateInterfacesFields_loop_x_returns:
  "pathAt (paths st) field P \<Longrightarrow>
   returnsWith (validateInterfacesFields_loop_x hash field idx ifaces causes) st
     (\<lambda>cs st'. validateInterfacesFields_loop P idx ifaces causes = Inr cs)"
proof (induction ifaces arbitrary: idx causes st)
  case Nil
  show ?case by (simp add: returnsWith_return)
next
  case (Cons iface rest)
  show ?case
    unfolding validateInterfacesFields_loop_x.simps
  proof (rule bind_sub [OF validateInterfaceNameFormat_x_returns [OF Cons.prems] Cons.prems])
    fix c1 and st1 :: state
    assume p1: "pathAt (paths st1) field P" and c1: "c1 = validateInterfaceNameFormat P idx iface"
    show "returnsWith
            (bindx (validateInterfaceModel_x hash field idx iface) (\<lambda>modelCauses.
             bindx (validateMacAddress_x field idx iface) (\<lambda>macCauses.
             bindx (validatePciAddress_x field idx iface) (\<lambda>pciCauses.
               validateInterfacesFields_loop_x hash field (idx + 1) rest
                 ((((causes @ c1) @ modelCauses) @ macCauses) @ pciCauses))))) st1
            (\<lambda>cs st'. validateInterfacesFields_loop P idx (iface # rest) causes = Inr cs)"
    proof (rule bind_sub [OF validateInterfaceModel_x_returns [OF p1] p1])
      fix c2 and st2 :: state
      assume p2: "pathAt (paths st2) field P" and c2: "c2 = validateInterfaceModel P idx iface"
      show "returnsWith
              (bindx (validateMacAddress_x field idx iface) (\<lambda>macCauses.
               bindx (validatePciAddress_x field idx iface) (\<lambda>pciCauses.
                 validateInterfacesFields_loop_x hash field (idx + 1) rest
                   ((((causes @ c1) @ c2) @ macCauses) @ pciCauses)))) st2
              (\<lambda>cs st'. validateInterfacesFields_loop P idx (iface # rest) causes = Inr cs)"
      proof (rule bind_sub [OF validateMacAddress_x_returns [OF p2] p2])
        fix c3 and st3 :: state
        assume p3: "pathAt (paths st3) field P" and c3: "validateMacAddress P idx iface = Inr c3"
        show "returnsWith
                (bindx (validatePciAddress_x field idx iface) (\<lambda>pciCauses.
                   validateInterfacesFields_loop_x hash field (idx + 1) rest
                     ((((causes @ c1) @ c2) @ c3) @ pciCauses))) st3
                (\<lambda>cs st'. validateInterfacesFields_loop P idx (iface # rest) causes = Inr cs)"
        proof (rule bind_sub [OF validatePciAddress_x_returns [OF p3] p3])
          fix c4 and st4 :: state
          assume p4: "pathAt (paths st4) field P" and c4: "c4 = validatePciAddress P idx iface"
          show "returnsWith
                  (validateInterfacesFields_loop_x hash field (idx + 1) rest
                     ((((causes @ c1) @ c2) @ c3) @ c4)) st4
                  (\<lambda>cs st'. validateInterfacesFields_loop P idx (iface # rest) causes = Inr cs)"
            using Cons.IH [OF p4, of "idx + 1" "(((causes @ c1) @ c2) @ c3) @ c4"] c1 c2 c3 c4
            by (simp add: Let_def)
        qed
      qed
    qed
  qed
qed

lemma returnsWithD:
  "returnsWith m st Q \<Longrightarrow>
   \<exists>v st'. m st = Returns (v, st') \<and> vmiSpec st' = vmiSpec st
     \<and> (\<exists>ext. paths st' = paths st @ ext) \<and> Q v st'"
  by (auto simp: returnsWith_def grows_def)

lemma validateNetworksAssignedToInterfaces_x_returns:
  assumes "pathAt (paths st) field P"
  shows "\<exists>st'. validateNetworksAssignedToInterfaces_x hash field st
            = Returns (validateNetworksAssignedToInterfaces P (vmiSpec st), st')
          \<and> vmiSpec st' = vmiSpec st \<and> (\<exists>ext. paths st' = paths st @ ext)"
  using returnsWithD [OF validateNetworksAssignedToInterfaces_loop_x_returns [OF assms,
        of "IndexInterfaceSpecByName_x hash (Interfaces (Devices (VirtualMachineInstanceSpec.Domain (vmiSpec st))))"
           0 "Networks (vmiSpec st)" "[]"]]
  by (simp add: validateNetworksAssignedToInterfaces_x_def validateNetworksAssignedToInterfaces_def
      IndexInterfaceSpecByName_x_eq Let_def)

lemma validateInterfacesAssignedToNetworks_x_returns:
  assumes "pathAt (paths st) field P"
  shows "\<exists>st'. validateInterfacesAssignedToNetworks_x hash field st
            = Returns (validateInterfacesAssignedToNetworks P (vmiSpec st), st')
          \<and> vmiSpec st' = vmiSpec st \<and> (\<exists>ext. paths st' = paths st @ ext)"
  using returnsWithD [OF validateInterfacesAssignedToNetworks_loop_x_returns [OF assms,
        of "IndexNetworkSpecByName_x hash (Networks (vmiSpec st))"
           0 "Interfaces (Devices (VirtualMachineInstanceSpec.Domain (vmiSpec st)))" "[]"]]
  by (simp add: validateInterfacesAssignedToNetworks_x_def validateInterfacesAssignedToNetworks_def
      IndexNetworkSpecByName_x_eq Let_def)

lemma validateNetworkNameUnique_x_returns:
  assumes "pathAt (paths st) field P"
  shows "\<exists>st'. validateNetworkNameUnique_x hash tables field st
            = Returns (validateNetworkNameUnique tables P (vmiSpec st), st')
          \<and> vmiSpec st' = vmiSpec st \<and> (\<exists>ext. paths st' = paths st @ ext)"
  using returnsWithD [OF validateNetworkNameUnique_loop_x_returns [OF assms,
        of hash tables "[]" 0 "Networks (vmiSpec st)" "[]"]]
  by (simp add: validateNetworkNameUnique_x_def validateNetworkNameUnique_def)

lemma validateInterfaceNameUnique_x_returns:
  assumes "pathAt (paths st) field P"
  shows "\<exists>st'. validateInterfaceNameUnique_x hash field st
            = Returns (validateInterfaceNameUnique P (vmiSpec st), st')
          \<and> vmiSpec st' = vmiSpec st \<and> (\<exists>ext. paths st' = paths st @ ext)"
  using returnsWithD [OF validateInterfaceNameUnique_loop_x_returns [OF assms,
        of hash "[]" 0 "Interfaces (Devices (VirtualMachineInstanceSpec.Domain (vmiSpec st)))" "[]"]]
  by (simp add: validateInterfaceNameUnique_x_def validateInterfaceNameUnique_def)

lemma validateInterfacesFields_x_returns:
  assumes "pathAt (paths st) field P"
  shows "\<exists>cs st'. validateInterfacesFields_x hash field st = Returns (cs, st')
          \<and> validateInterfacesFields P (vmiSpec st) = Inr cs
          \<and> vmiSpec st' = vmiSpec st \<and> (\<exists>ext. paths st' = paths st @ ext)"
  using returnsWithD [OF validateInterfacesFields_loop_x_returns [OF assms,
        of hash 0 "Interfaces (Devices (VirtualMachineInstanceSpec.Domain (vmiSpec st)))" "[]"]]
  by (auto simp: validateInterfacesFields_x_def validateInterfacesFields_def)

section \<open>Totality and effects\<close>

text \<open>
  C9. Every check is total and free of side effects. Take any state, any spec in it,
  whatever its lists and field values hold, and any pointer \<open>field\<close> that denotes a
  path \<open>P\<close> (as every pointer built with \<^verbatim>\<open>NewPath\<close>, \<^verbatim>\<open>Child\<close> and \<^verbatim>\<open>Index\<close>
  does). Then the run of each of the five checks returns: it does not panic and it
  does not loop. What it returns is the cause list of the function above (for
  \<^verbatim>\<open>validateInterfacesFields\<close>, the list \<open>cs\<close> with \<open>Inr cs\<close>). In the state after the
  call the spec is the one before the call; the heap is the heap before the call
  followed by new nodes, so no node that existed was written; and \<open>field\<close> denotes
  \<open>P\<close> as before. The two library functions that index and slice their argument,
  \<^verbatim>\<open>net.ParseMAC\<close> and \<^verbatim>\<open>strconv.Quote\<close>, return for every string.
\<close>

theorem checks_total:
  assumes "pathAt (paths st) field P"
  shows
  "(\<exists>st'. validateNetworksAssignedToInterfaces_x hash field st
            = Returns (validateNetworksAssignedToInterfaces P (vmiSpec st), st')
          \<and> vmiSpec st' = vmiSpec st \<and> (\<exists>ext. paths st' = paths st @ ext) \<and> pathAt (paths st') field P)
   \<and> (\<exists>st'. validateInterfacesAssignedToNetworks_x hash field st
            = Returns (validateInterfacesAssignedToNetworks P (vmiSpec st), st')
          \<and> vmiSpec st' = vmiSpec st \<and> (\<exists>ext. paths st' = paths st @ ext) \<and> pathAt (paths st') field P)
   \<and> (\<exists>st'. validateNetworkNameUnique_x hash tables field st
            = Returns (validateNetworkNameUnique tables P (vmiSpec st), st')
          \<and> vmiSpec st' = vmiSpec st \<and> (\<exists>ext. paths st' = paths st @ ext) \<and> pathAt (paths st') field P)
   \<and> (\<exists>st'. validateInterfaceNameUnique_x hash field st
            = Returns (validateInterfaceNameUnique P (vmiSpec st), st')
          \<and> vmiSpec st' = vmiSpec st \<and> (\<exists>ext. paths st' = paths st @ ext) \<and> pathAt (paths st') field P)
   \<and> (\<exists>cs st'. validateInterfacesFields_x hash field st = Returns (cs, st')
          \<and> validateInterfacesFields P (vmiSpec st) = Inr cs
          \<and> vmiSpec st' = vmiSpec st \<and> (\<exists>ext. paths st' = paths st @ ext) \<and> pathAt (paths st') field P)
   \<and> (\<exists>hw err. ParseMAC s = Inr (hw, err))
   \<and> Quote_p tables s = Inr (Quote tables s)"
proof -
  have keep: "pathAt (paths st') field P" if "paths st' = paths st @ ext" for st' :: state and ext
    using pathAt_append [OF assms, of ext] that by simp
  show ?thesis
    using validateNetworksAssignedToInterfaces_x_returns [OF assms, of hash]
      validateInterfacesAssignedToNetworks_x_returns [OF assms, of hash]
      validateNetworkNameUnique_x_returns [OF assms, of hash tables]
      validateInterfaceNameUnique_x_returns [OF assms, of hash]
      validateInterfacesFields_x_returns [OF assms, of hash]
      ParseMAC_Inr [of s] Quote_p_eq [of tables s] keep
    by (intro conjI) blast+
qed

theorem checks_total_witness:
  "(\<exists>st'. validateNetworksAssignedToInterfaces_x (\<lambda>k. 0) (Some 0)
            \<lparr>paths = [\<lparr>nodeName = ''spec'', nodeIndex = [], nodeParent = None\<rparr>],
             vmiSpec = mkSpec [mkNetwork ''net1''] [mkInterface [] ''banana'' ''no:t-:a-:ma:c'' ''zz:00:00.0'']\<rparr>
          = Returns ([\<lparr>Type = CauseTypeFieldValueRequired,
                       Message = ''spec.networks[0].name 'net1' not found.'',
                       Field = ''spec.networks[0].name''\<rparr>], st')
        \<and> vmiSpec st' = mkSpec [mkNetwork ''net1''] [mkInterface [] ''banana'' ''no:t-:a-:ma:c'' ''zz:00:00.0'']
        \<and> (\<exists>ext. paths st' = \<lparr>nodeName = ''spec'', nodeIndex = [], nodeParent = None\<rparr> # ext))
   \<and> (\<exists>cs st'. validateInterfacesFields_x (\<lambda>k. 0) (Some 0)
            \<lparr>paths = [\<lparr>nodeName = ''spec'', nodeIndex = [], nodeParent = None\<rparr>],
             vmiSpec = mkSpec [mkNetwork ''net1''] [mkInterface [] ''banana'' ''no:t-:a-:ma:c'' ''zz:00:00.0'']\<rparr>
          = Returns (cs, st')
        \<and> vmiSpec st' = mkSpec [mkNetwork ''net1''] [mkInterface [] ''banana'' ''no:t-:a-:ma:c'' ''zz:00:00.0''])"
proof -
  let ?h = "[\<lparr>nodeName = ''spec'', nodeIndex = [], nodeParent = None\<rparr>]"
  let ?spec = "mkSpec [mkNetwork ''net1''] [mkInterface [] ''banana'' ''no:t-:a-:ma:c'' ''zz:00:00.0'']"
  have "pathAt ?h (Some 0) (Path (nodeName (?h ! 0)) (nodeIndex (?h ! 0)) NilPath)"
    by (intro pathAt.node) (simp_all add: pathAt.nil)
  then have p: "pathAt (paths \<lparr>paths = ?h, vmiSpec = ?spec\<rparr>) (Some 0) (NewPath ''spec'' [])"
    by (simp add: NewPath_def)
  have v: "validateNetworksAssignedToInterfaces (NewPath ''spec'' []) ?spec
      = [\<lparr>Type = CauseTypeFieldValueRequired,
          Message = ''spec.networks[0].name 'net1' not found.'',
          Field = ''spec.networks[0].name''\<rparr>]"
    by code_simp
  show ?thesis
    using checks_total [OF p, of "\<lambda>k. 0" "\<lambda>r. False" "[]"]
    by (auto simp: v)
qed

section \<open>Determinism\<close>

lemma same_dom_lookup: "dom m = dom m' \<Longrightarrow> (m x = None) = (m' x = None)"
  by (metis domIff)

lemma validateNetworksAssignedToInterfaces_loop_dom:
  "dom interfaceSet = dom interfaceSet' \<Longrightarrow>
   validateNetworksAssignedToInterfaces_loop field interfaceSet i networks causes =
   validateNetworksAssignedToInterfaces_loop field interfaceSet' i networks causes"
proof (induction networks arbitrary: i causes)
  case Nil
  then show ?case by simp
next
  case (Cons network rest)
  show ?case
    unfolding validateNetworksAssignedToInterfaces_loop.simps Cons.IH [OF Cons.prems]
    using same_dom_lookup [OF Cons.prems, of "Network.Name network"] by simp
qed

lemma validateInterfacesAssignedToNetworks_loop_dom:
  "dom networkSet = dom networkSet' \<Longrightarrow>
   validateInterfacesAssignedToNetworks_loop field networkSet idx interfaces causes =
   validateInterfacesAssignedToNetworks_loop field networkSet' idx interfaces causes"
proof (induction interfaces arbitrary: idx causes)
  case Nil
  then show ?case by simp
next
  case (Cons iface rest)
  show ?case
    unfolding validateInterfacesAssignedToNetworks_loop.simps Cons.IH [OF Cons.prems]
    using same_dom_lookup [OF Cons.prems, of "Interface.Name iface"] by simp
qed

lemma validateNetworkNameUnique_loop_dom:
  "dom networkSet = dom networkSet' \<Longrightarrow>
   validateNetworkNameUnique_loop tables field networkSet i networks causes =
   validateNetworkNameUnique_loop tables field networkSet' i networks causes"
proof (induction networks arbitrary: i causes networkSet networkSet')
  case Nil
  then show ?case by simp
next
  case (Cons network rest)
  have d: "dom (networkSet(Network.Name network \<mapsto> ())) = dom (networkSet'(Network.Name network \<mapsto> ()))"
    using Cons.prems by simp
  show ?case
    unfolding validateNetworkNameUnique_loop.simps Cons.IH [OF d]
    using same_dom_lookup [OF Cons.prems, of "Network.Name network"] by simp
qed

lemma validateInterfaceNameUnique_loop_dom:
  "dom ifaceSet = dom ifaceSet' \<Longrightarrow>
   validateInterfaceNameUnique_loop field ifaceSet idx interfaces causes =
   validateInterfaceNameUnique_loop field ifaceSet' idx interfaces causes"
proof (induction interfaces arbitrary: idx causes ifaceSet ifaceSet')
  case Nil
  then show ?case by simp
next
  case (Cons iface rest)
  have d: "dom (ifaceSet(Interface.Name iface \<mapsto> ())) = dom (ifaceSet'(Interface.Name iface \<mapsto> ()))"
    using Cons.prems by simp
  show ?case
    unfolding validateInterfaceNameUnique_loop.simps Cons.IH [OF d]
    using same_dom_lookup [OF Cons.prems, of "Interface.Name iface"] by simp
qed

lemma same_keys_dom: "fst ` set m = fst ` set m' \<Longrightarrow> dom (map_of m) = dom (map_of m')"
  by (simp add: dom_map_of_conv_image_fst)

text \<open>
  C10. Every check is deterministic. Take two runs: two states that hold the same
  spec, two pointers that denote the same path \<open>P\<close> (in heaps that may differ in
  everything else), and two hash functions, so that the maps of the two runs may hold
  their entries in different orders. Then each of the five checks returns in both
  runs, with the same cause list: the same length, the same order, the same elements.
  The maps enter a result only through membership: run from the middle, with any two
  maps that have the same keys, in whatever order and with whatever values, each of
  the four loops that use a map returns the same cause list in both runs. No check
  iterates over a map.
\<close>

theorem checks_deterministic:
  assumes "pathAt (paths st) field P" and "pathAt (paths st') field' P" and "vmiSpec st = vmiSpec st'"
  shows
  "(\<exists>cs s s'. validateNetworksAssignedToInterfaces_x hash field st = Returns (cs, s)
        \<and> validateNetworksAssignedToInterfaces_x hash' field' st' = Returns (cs, s'))
   \<and> (\<exists>cs s s'. validateInterfacesAssignedToNetworks_x hash field st = Returns (cs, s)
        \<and> validateInterfacesAssignedToNetworks_x hash' field' st' = Returns (cs, s'))
   \<and> (\<exists>cs s s'. validateNetworkNameUnique_x hash tables field st = Returns (cs, s)
        \<and> validateNetworkNameUnique_x hash' tables field' st' = Returns (cs, s'))
   \<and> (\<exists>cs s s'. validateInterfaceNameUnique_x hash field st = Returns (cs, s)
        \<and> validateInterfaceNameUnique_x hash' field' st' = Returns (cs, s'))
   \<and> (\<exists>cs s s'. validateInterfacesFields_x hash field st = Returns (cs, s)
        \<and> validateInterfacesFields_x hash' field' st' = Returns (cs, s'))
   \<and> (fst ` set interfaceSet = fst ` set interfaceSet' \<longrightarrow>
        (\<exists>cs s s'. validateNetworksAssignedToInterfaces_loop_x field interfaceSet i networks causes st = Returns (cs, s)
           \<and> validateNetworksAssignedToInterfaces_loop_x field' interfaceSet' i networks causes st' = Returns (cs, s')))
   \<and> (fst ` set networkSet = fst ` set networkSet' \<longrightarrow>
        (\<exists>cs s s'. validateInterfacesAssignedToNetworks_loop_x field networkSet i interfaces causes st = Returns (cs, s)
           \<and> validateInterfacesAssignedToNetworks_loop_x field' networkSet' i interfaces causes st' = Returns (cs, s')))
   \<and> (fst ` set seen = fst ` set seen' \<longrightarrow>
        (\<exists>cs s s'. validateNetworkNameUnique_loop_x hash tables field seen i networks causes st = Returns (cs, s)
           \<and> validateNetworkNameUnique_loop_x hash' tables field' seen' i networks causes st' = Returns (cs, s'))
        \<and> (\<exists>cs s s'. validateInterfaceNameUnique_loop_x hash field seen i interfaces causes st = Returns (cs, s)
           \<and> validateInterfaceNameUnique_loop_x hash' field' seen' i interfaces causes st' = Returns (cs, s')))"
proof -
  note p = assms(1) and p' = assms(2) and s = assms(3)
  have a: "\<exists>cs s s'. validateNetworksAssignedToInterfaces_x hash field st = Returns (cs, s)
        \<and> validateNetworksAssignedToInterfaces_x hash' field' st' = Returns (cs, s')"
    using validateNetworksAssignedToInterfaces_x_returns [OF p, of hash]
      validateNetworksAssignedToInterfaces_x_returns [OF p', of hash'] s by auto
  have b: "\<exists>cs s s'. validateInterfacesAssignedToNetworks_x hash field st = Returns (cs, s)
        \<and> validateInterfacesAssignedToNetworks_x hash' field' st' = Returns (cs, s')"
    using validateInterfacesAssignedToNetworks_x_returns [OF p, of hash]
      validateInterfacesAssignedToNetworks_x_returns [OF p', of hash'] s by auto
  have c: "\<exists>cs s s'. validateNetworkNameUnique_x hash tables field st = Returns (cs, s)
        \<and> validateNetworkNameUnique_x hash' tables field' st' = Returns (cs, s')"
    using validateNetworkNameUnique_x_returns [OF p, of hash tables]
      validateNetworkNameUnique_x_returns [OF p', of hash' tables] s by auto
  have d: "\<exists>cs s s'. validateInterfaceNameUnique_x hash field st = Returns (cs, s)
        \<and> validateInterfaceNameUnique_x hash' field' st' = Returns (cs, s')"
    using validateInterfaceNameUnique_x_returns [OF p, of hash]
      validateInterfaceNameUnique_x_returns [OF p', of hash'] s by auto
  have e: "\<exists>cs s s'. validateInterfacesFields_x hash field st = Returns (cs, s)
        \<and> validateInterfacesFields_x hash' field' st' = Returns (cs, s')"
    using validateInterfacesFields_x_returns [OF p, of hash]
      validateInterfacesFields_x_returns [OF p', of hash'] s by auto
  have f: "\<exists>cs s s'. validateNetworksAssignedToInterfaces_loop_x field interfaceSet i networks causes st = Returns (cs, s)
           \<and> validateNetworksAssignedToInterfaces_loop_x field' interfaceSet' i networks causes st' = Returns (cs, s')"
    if k: "fst ` set interfaceSet = fst ` set interfaceSet'"
    using returnsWithD [OF validateNetworksAssignedToInterfaces_loop_x_returns [OF p, of interfaceSet i networks causes]]
      returnsWithD [OF validateNetworksAssignedToInterfaces_loop_x_returns [OF p', of interfaceSet' i networks causes]]
      validateNetworksAssignedToInterfaces_loop_dom [OF same_keys_dom [OF k], of P i networks causes]
    by auto
  have g: "\<exists>cs s s'. validateInterfacesAssignedToNetworks_loop_x field networkSet i interfaces causes st = Returns (cs, s)
           \<and> validateInterfacesAssignedToNetworks_loop_x field' networkSet' i interfaces causes st' = Returns (cs, s')"
    if k: "fst ` set networkSet = fst ` set networkSet'"
    using returnsWithD [OF validateInterfacesAssignedToNetworks_loop_x_returns [OF p, of networkSet i interfaces causes]]
      returnsWithD [OF validateInterfacesAssignedToNetworks_loop_x_returns [OF p', of networkSet' i interfaces causes]]
      validateInterfacesAssignedToNetworks_loop_dom [OF same_keys_dom [OF k], of P i interfaces causes]
    by auto
  have h: "\<exists>cs s s'. validateNetworkNameUnique_loop_x hash tables field seen i networks causes st = Returns (cs, s)
           \<and> validateNetworkNameUnique_loop_x hash' tables field' seen' i networks causes st' = Returns (cs, s')"
    if k: "fst ` set seen = fst ` set seen'"
    using returnsWithD [OF validateNetworkNameUnique_loop_x_returns [OF p, of hash tables seen i networks causes]]
      returnsWithD [OF validateNetworkNameUnique_loop_x_returns [OF p', of hash' tables seen' i networks causes]]
      validateNetworkNameUnique_loop_dom [OF same_keys_dom [OF k], of tables P i networks causes]
    by auto
  have j: "\<exists>cs s s'. validateInterfaceNameUnique_loop_x hash field seen i interfaces causes st = Returns (cs, s)
           \<and> validateInterfaceNameUnique_loop_x hash' field' seen' i interfaces causes st' = Returns (cs, s')"
    if k: "fst ` set seen = fst ` set seen'"
    using returnsWithD [OF validateInterfaceNameUnique_loop_x_returns [OF p, of hash seen i interfaces causes]]
      returnsWithD [OF validateInterfaceNameUnique_loop_x_returns [OF p', of hash' seen' i interfaces causes]]
      validateInterfaceNameUnique_loop_dom [OF same_keys_dom [OF k], of P i interfaces causes]
    by auto
  show ?thesis
    using a b c d e f g h j by (intro conjI impI) assumption+
qed

theorem checks_deterministic_witness:
  "(\<exists>cs s s'. validateNetworksAssignedToInterfaces_x (\<lambda>k. 0) (Some 0)
        \<lparr>paths = [\<lparr>nodeName = ''spec'', nodeIndex = [], nodeParent = None\<rparr>],
         vmiSpec = mkSpec [mkNetwork ''net1'', mkNetwork ''net2''] [mkInterface ''net2'' [] [] []]\<rparr>
          = Returns (cs, s)
      \<and> validateNetworksAssignedToInterfaces_x length (Some 1)
        \<lparr>paths = [\<lparr>nodeName = ''name'', nodeIndex = [], nodeParent = Some 1\<rparr>,
                  \<lparr>nodeName = ''spec'', nodeIndex = [], nodeParent = None\<rparr>],
         vmiSpec = mkSpec [mkNetwork ''net1'', mkNetwork ''net2''] [mkInterface ''net2'' [] [] []]\<rparr>
          = Returns (cs, s'))
   \<and> (\<exists>cs s s'. validateInterfaceNameUnique_loop_x (\<lambda>k. 0) (Some 0) [(''a'', ()), (''b'', ())] 0
        [mkInterface ''b'' [] [] []] []
        \<lparr>paths = [\<lparr>nodeName = ''spec'', nodeIndex = [], nodeParent = None\<rparr>],
         vmiSpec = mkSpec [mkNetwork ''net1'', mkNetwork ''net2''] [mkInterface ''net2'' [] [] []]\<rparr>
          = Returns (cs, s)
      \<and> validateInterfaceNameUnique_loop_x length (Some 1) [(''b'', ()), (''a'', ())] 0
        [mkInterface ''b'' [] [] []] []
        \<lparr>paths = [\<lparr>nodeName = ''name'', nodeIndex = [], nodeParent = Some 1\<rparr>,
                  \<lparr>nodeName = ''spec'', nodeIndex = [], nodeParent = None\<rparr>],
         vmiSpec = mkSpec [mkNetwork ''net1'', mkNetwork ''net2''] [mkInterface ''net2'' [] [] []]\<rparr>
          = Returns (cs, s'))"
proof -
  let ?h = "[\<lparr>nodeName = ''spec'', nodeIndex = [], nodeParent = None\<rparr>]"
  let ?h' = "[\<lparr>nodeName = ''name'', nodeIndex = [], nodeParent = Some 1\<rparr>,
              \<lparr>nodeName = ''spec'', nodeIndex = [], nodeParent = None\<rparr>]"
  let ?spec = "mkSpec [mkNetwork ''net1'', mkNetwork ''net2''] [mkInterface ''net2'' [] [] []]"
  have "pathAt ?h (Some 0) (Path (nodeName (?h ! 0)) (nodeIndex (?h ! 0)) NilPath)"
    by (intro pathAt.node) (simp_all add: pathAt.nil)
  then have p: "pathAt (paths \<lparr>paths = ?h, vmiSpec = ?spec\<rparr>) (Some 0) (NewPath ''spec'' [])"
    by (simp add: NewPath_def)
  have "pathAt ?h' (Some 1) (Path (nodeName (?h' ! 1)) (nodeIndex (?h' ! 1)) NilPath)"
    by (intro pathAt.node) (simp_all add: pathAt.nil)
  then have p': "pathAt (paths \<lparr>paths = ?h', vmiSpec = ?spec\<rparr>) (Some 1) (NewPath ''spec'' [])"
    by (simp add: NewPath_def)
  have s: "vmiSpec \<lparr>paths = ?h, vmiSpec = ?spec\<rparr> = vmiSpec \<lparr>paths = ?h', vmiSpec = ?spec\<rparr>"
    by simp
  have k: "fst ` set [(''a'', ()), (''b'', ())] = fst ` set [(''b'', ()), (''a'', ())]"
    by auto
  show ?thesis
    using checks_deterministic [OF p p' s, of "\<lambda>k. 0" length "\<lambda>r. False" "[]" "[]" 0 "[]" "[]"
        "[]" "[]" "[mkInterface ''b'' [] [] []]" "[(''a'', ())]" "[(''a'', ())]"]
      checks_deterministic [OF p p' s, of "\<lambda>k. 0" length "\<lambda>r. False" "[]" "[]" 0 "[]" "[]"
        "[]" "[]" "[mkInterface ''b'' [] [] []]" "[(''a'', ()), (''b'', ())]" "[(''b'', ()), (''a'', ())]"]
      k
    by blast
qed

end
